theory Spec2Isabelle
  imports Main
begin

section \<open>JavaScript values the tracker handles\<close>

text \<open>
  The embedding follows \<^verbatim>\<open>src/index.ts\<close>. Timer handles and clock readings
  (\<^verbatim>\<open>Date.now()\<close>) are integers. The \<^verbatim>\<open>delay\<close> argument is a
  \<^verbatim>\<open>number | undefined\<close>: \<open>None\<close> is \<^verbatim>\<open>undefined\<close> (or omitted), and
  besides the integers the type holds \<^verbatim>\<open>NaN\<close>, the one number other than zero
  that \<^verbatim>\<open>||\<close> treats as false.
\<close>

datatype js_number = Num int | NaN

text \<open>What a call can throw: \<open>DOMException name\<close>, a \<^verbatim>\<open>TypeError\<close>, or anything else.\<close>

datatype js_error = DOMException string | TypeError string | OtherError string

text \<open>Object literals, arrays, strings and numbers, as handed to the console and to JSON.\<close>

datatype js_value =
    JNumber js_number
  | JString string
  | JArray "js_value list"
  | JObject "(string \<times> js_value) list"

record TimerInfo =
  createdAt :: int
  delay :: js_number
  stack :: string

subsection \<open>\<^verbatim>\<open>Map<number, TimerInfo>\<close>\<close>

text \<open>
  A JavaScript \<^verbatim>\<open>Map\<close> iterates in insertion order: the list of its entries.
  \<^verbatim>\<open>set\<close> on a key that is present replaces the value where the entry stands, on a
  new key it appends the entry; \<^verbatim>\<open>delete\<close> removes the entry of the key, if any.
\<close>

type_synonym ('k, 'v) js_map = "('k \<times> 'v) list"

fun Map_set :: "'k \<Rightarrow> 'v \<Rightarrow> ('k, 'v) js_map \<Rightarrow> ('k, 'v) js_map" where
  "Map_set k v [] = [(k, v)]"
| "Map_set k v ((k', v') # m) = (if k' = k then (k, v) # m else (k', v') # Map_set k v m)"

definition Map_delete :: "'k \<Rightarrow> ('k, 'v) js_map \<Rightarrow> ('k, 'v) js_map" where
  "Map_delete k m = filter (\<lambda>(k', v'). k' \<noteq> k) m"

definition Map_get :: "('k, 'v) js_map \<Rightarrow> 'k \<Rightarrow> 'v option" where
  "Map_get m k = map_of m k"

definition Map_keys :: "('k, 'v) js_map \<Rightarrow> 'k list" where
  "Map_keys m = map fst m"

section \<open>The origin tagger\<close>

text \<open>
  \<^verbatim>\<open>
  function getStackTag(): string {
      const err = new Error();
      const stack = err.stack?.split('\n') || [];
      return stack[3]?.trim() || 'unknown';
  }
  \<close>
  The text of \<^verbatim>\<open>err.stack\<close> is the engine's; it is the argument here, \<open>None\<close>
  where the engine gives no \<^verbatim>\<open>stack\<close>.
\<close>

fun split_newline :: "string \<Rightarrow> string list" where
  "split_newline [] = [[]]"
| "split_newline (c # cs) =
     (if c = CHR 0x0A then [] # split_newline cs
      else (case split_newline cs of [] \<Rightarrow> [[c]] | l # ls \<Rightarrow> (c # l) # ls))"

text \<open>The white space and line terminators of ECMAScript among the code units below 256.\<close>

definition isWhiteSpace :: "char \<Rightarrow> bool" where
  "isWhiteSpace c = (c \<in> set [CHR 0x09, CHR 0x0A, CHR 0x0B, CHR 0x0C, CHR 0x0D, CHR 0x20, CHR 0xA0])"

definition trim :: "string \<Rightarrow> string" where
  "trim s = rev (dropWhile isWhiteSpace (rev (dropWhile isWhiteSpace s)))"

definition getStackTag :: "string option \<Rightarrow> string" where
  "getStackTag err_stack =
     (let stack = (case err_stack of None \<Rightarrow> [] | Some s \<Rightarrow> split_newline s)
      in if 3 < length stack \<and> trim (stack ! 3) \<noteq> [] then trim (stack ! 3) else ''unknown'')"

section \<open>The interception layer\<close>

text \<open>
  What the host does during one call is an input of the call: whether the native
  registration returns a handle or throws, the clock, the stack text of a fresh
  \<^verbatim>\<open>Error\<close>, and what \<^verbatim>\<open>navigator.clipboard\<close> is and does.
\<close>

datatype clipboard_state = NoClipboard | WriteResolves | WriteRejects js_error

record env =
  native_returns :: "js_error + int"
  Date_now :: int
  new_Date :: int
  Error_stack :: "string option"
  clipboard :: clipboard_state

text \<open>Calls of the four original functions, in the order they were made.\<close>

datatype ('f, 'a) native_call =
    NativeSetTimeout 'f "js_number option" "'a list"
  | NativeClearTimeout int
  | NativeSetInterval 'f "js_number option" "'a list"
  | NativeClearInterval int

datatype console_event =
    GroupCollapsed string
  | Group string
  | GroupEnd
  | Info string
  | Warn string "js_error list"
  | Table "js_value list"

text \<open>
  The two maps of \<^verbatim>\<open>tracker\<close>, and what the shim did to the host: the native
  calls, the console output and the texts written to the clipboard.
\<close>

record ('f, 'a) state =
  timeouts :: "(int, TimerInfo) js_map"
  intervals :: "(int, TimerInfo) js_map"
  native_calls :: "('f, 'a) native_call list"
  console :: "console_event list"
  clipboard_writes :: "string list"

definition init :: "('f, 'a) state" where
  "init = \<lparr>timeouts = [], intervals = [], native_calls = [], console = [], clipboard_writes = []\<rparr>"

text \<open>\<^verbatim>\<open>delay || 0\<close>: the delay when it is truthy, else 0.\<close>

definition truthy :: "js_number option \<Rightarrow> bool" where
  "truthy d = (case d of None \<Rightarrow> False | Some NaN \<Rightarrow> False | Some (Num n) \<Rightarrow> n \<noteq> 0)"

definition or_zero :: "js_number option \<Rightarrow> js_number" where
  "or_zero d = (if truthy d then the d else Num 0)"

text \<open>
  \<^verbatim>\<open>
  window.setTimeout = function (fn, delay?, ...args): number {
      const id = original.setTimeout(fn, delay, ...args);
      tracker.timeouts.set(id, {
          createdAt: Date.now(), delay: delay || 0, stack: getStackTag() });
      return id;
  }
  \<close>
  An exception of the native call leaves the function at once. The handle \<^verbatim>\<open>id\<close>
  is written \<open>tid\<close> (\<open>id\<close> is the identity function of HOL).
\<close>

definition window_setTimeout ::
  "'f \<Rightarrow> js_number option \<Rightarrow> 'a list \<Rightarrow> env \<Rightarrow> ('f, 'a) state \<Rightarrow> (js_error + int) \<times> ('f, 'a) state" where
  "window_setTimeout fn dly args e s =
     (let s1 = s\<lparr>native_calls := native_calls s @ [NativeSetTimeout fn dly args]\<rparr>
      in case native_returns e of
           Inl err \<Rightarrow> (Inl err, s1)
         | Inr tid \<Rightarrow>
             (Inr tid,
              s1\<lparr>timeouts :=
                   Map_set tid \<lparr>createdAt = Date_now e, delay = or_zero dly,
                               stack = getStackTag (Error_stack e)\<rparr> (timeouts s1)\<rparr>))"

text \<open>
  \<^verbatim>\<open>
  window.clearTimeout = function (id: number | undefined): void {
      if (id !== undefined) {
          tracker.timeouts.delete(id);
          original.clearTimeout(id);
      }
  }
  \<close>
  The native cancel functions take any number and return \<^verbatim>\<open>undefined\<close>.
\<close>

definition window_clearTimeout ::
  "int option \<Rightarrow> ('f, 'a) state \<Rightarrow> (js_error + unit) \<times> ('f, 'a) state" where
  "window_clearTimeout tid s =
     (case tid of
        None \<Rightarrow> (Inr (), s)
      | Some i \<Rightarrow>
          (Inr (),
           s\<lparr>timeouts := Map_delete i (timeouts s),
             native_calls := native_calls s @ [NativeClearTimeout i]\<rparr>))"

definition window_setInterval ::
  "'f \<Rightarrow> js_number option \<Rightarrow> 'a list \<Rightarrow> env \<Rightarrow> ('f, 'a) state \<Rightarrow> (js_error + int) \<times> ('f, 'a) state" where
  "window_setInterval fn dly args e s =
     (let s1 = s\<lparr>native_calls := native_calls s @ [NativeSetInterval fn dly args]\<rparr>
      in case native_returns e of
           Inl err \<Rightarrow> (Inl err, s1)
         | Inr tid \<Rightarrow>
             (Inr tid,
              s1\<lparr>intervals :=
                   Map_set tid \<lparr>createdAt = Date_now e, delay = or_zero dly,
                               stack = getStackTag (Error_stack e)\<rparr> (intervals s1)\<rparr>))"

definition window_clearInterval ::
  "int option \<Rightarrow> ('f, 'a) state \<Rightarrow> (js_error + unit) \<times> ('f, 'a) state" where
  "window_clearInterval tid s =
     (case tid of
        None \<Rightarrow> (Inr (), s)
      | Some i \<Rightarrow>
          (Inr (),
           s\<lparr>intervals := Map_delete i (intervals s),
             native_calls := native_calls s @ [NativeClearInterval i]\<rparr>))"

text \<open>\<^verbatim>\<open>getActiveTimeouts: () => [...tracker.timeouts.entries()]\<close>, and the same for intervals.\<close>

definition getActiveTimeouts :: "('f, 'a) state \<Rightarrow> (int \<times> TimerInfo) list" where
  "getActiveTimeouts s = timeouts s"

definition getActiveIntervals :: "('f, 'a) state \<Rightarrow> (int \<times> TimerInfo) list" where
  "getActiveIntervals s = intervals s"

section \<open>Sequences of calls\<close>

text \<open>
  What happens to the page's timers: the four replaced entry points are called, each
  registration with what the host did during it, or the host fires a timer. Firing runs
  the callback the wrapper handed to the native function unchanged; no code of the shim
  runs then.
\<close>

datatype ('f, 'a) call =
    SetTimeout 'f "js_number option" "'a list" env
  | ClearTimeout "int option"
  | SetInterval 'f "js_number option" "'a list" env
  | ClearInterval "int option"
  | HostFires int

fun step :: "('f, 'a) call \<Rightarrow> ('f, 'a) state \<Rightarrow> ('f, 'a) state" where
  "step (SetTimeout fn dly args e) s = snd (window_setTimeout fn dly args e s)"
| "step (ClearTimeout tid) s = snd (window_clearTimeout tid s)"
| "step (SetInterval fn dly args e) s = snd (window_setInterval fn dly args e s)"
| "step (ClearInterval tid) s = snd (window_clearInterval tid s)"
| "step (HostFires tid) s = s"

text \<open>The calls run one after the other; a caller may catch what one of them throws.\<close>

definition run :: "('f, 'a) call list \<Rightarrow> ('f, 'a) state \<Rightarrow> ('f, 'a) state" where
  "run cs s = foldl (\<lambda>s c. step c s) s cs"

text \<open>What a call registers: the handle the native function returned and the record made for it.\<close>

definition registers_timeout :: "('f, 'a) call \<Rightarrow> (int \<times> TimerInfo) option" where
  "registers_timeout c =
     (case c of
        SetTimeout fn dly args e \<Rightarrow>
          (case native_returns e of
             Inl err \<Rightarrow> None
           | Inr tid \<Rightarrow> Some (tid, \<lparr>createdAt = Date_now e, delay = or_zero dly, stack = getStackTag (Error_stack e)\<rparr>))
      | _ \<Rightarrow> None)"

definition registers_interval :: "('f, 'a) call \<Rightarrow> (int \<times> TimerInfo) option" where
  "registers_interval c =
     (case c of
        SetInterval fn dly args e \<Rightarrow>
          (case native_returns e of
             Inl err \<Rightarrow> None
           | Inr tid \<Rightarrow> Some (tid, \<lparr>createdAt = Date_now e, delay = or_zero dly, stack = getStackTag (Error_stack e)\<rparr>))
      | _ \<Rightarrow> None)"

text \<open>
  The registry as the specification words it, over the calls made so far: a handle is
  registered and not cancelled when some call registered it and no later call cancelled
  it; its record is the one of its last registration. \<open>registers\<close> says what a call
  registers, \<open>cancel h\<close> is the call that cancels \<open>h\<close>.
\<close>

definition registered_not_cancelled ::
  "('c \<Rightarrow> (int \<times> TimerInfo) option) \<Rightarrow> (int \<Rightarrow> 'c) \<Rightarrow> 'c list \<Rightarrow> int \<Rightarrow> bool" where
  "registered_not_cancelled registers cancel cs h \<longleftrightarrow>
     (\<exists>pre c post. cs = pre @ c # post \<and> (\<exists>r. registers c = Some (h, r)) \<and> cancel h \<notin> set post)"

definition live_record ::
  "('c \<Rightarrow> (int \<times> TimerInfo) option) \<Rightarrow> (int \<Rightarrow> 'c) \<Rightarrow> 'c list \<Rightarrow> int \<Rightarrow> TimerInfo \<Rightarrow> bool" where
  "live_record registers cancel cs h r \<longleftrightarrow>
     (\<exists>pre c post. cs = pre @ c # post \<and> registers c = Some (h, r) \<and> cancel h \<notin> set post
        \<and> (\<forall>c' \<in> set post. \<forall>r'. registers c' \<noteq> Some (h, r')))"

section \<open>The reporting facade\<close>

text \<open>
  The built-in formatting functions of the host are parameters: the two renderings of a
  time value, \<^verbatim>\<open>(ms / 1000).toFixed(1)\<close> of a difference of two time values,
  the decimal text of a number (as \<^verbatim>\<open>join\<close> produces it) and
  \<^verbatim>\<open>JSON.stringify(data, null, 2)\<close>.
\<close>

record host =
  toLocaleTimeString :: "int \<Rightarrow> string"
  toISOString :: "int \<Rightarrow> string"
  toFixed1 :: "int \<Rightarrow> string"
  Number_toString :: "int \<Rightarrow> string"
  JSON_stringify :: "js_value \<Rightarrow> string"

definition log :: "console_event list \<Rightarrow> ('f, 'a) state \<Rightarrow> ('f, 'a) state" where
  "log events s = s\<lparr>console := console s @ events\<rparr>"

text \<open>The rows of the two timer tables of \<^verbatim>\<open>report()\<close>.\<close>

definition timer_rows :: "host \<Rightarrow> int \<Rightarrow> (int \<times> TimerInfo) list \<Rightarrow> js_value list" where
  "timer_rows h now entries =
     map (\<lambda>(tid, info).
           JObject [(''id'', JNumber (Num tid)),
                    (''delay'', JNumber (delay info)),
                    (''created'', JString (toLocaleTimeString h (createdAt info))),
                    (''age'', JString (toFixed1 h (now - createdAt info) @ ''s'')),
                    (''origin'', JString (stack info))])
         entries"

subsection \<open>\<^verbatim>\<open>originMap\<close>, a plain object\<close>

text \<open>
  \<^verbatim>\<open>const originMap: Record<string, { count: number; ids: number[] }> = {}\<close> is an
  object literal, so a property read looks through the object's own properties (kept
  here in creation order) and then through \<^verbatim>\<open>Object.prototype\<close>, whose property
  names are these.
\<close>

definition Object_prototype_names :: "string list" where
  "Object_prototype_names =
     [''constructor'', ''__defineGetter__'', ''__defineSetter__'', ''hasOwnProperty'',
      ''__lookupGetter__'', ''__lookupSetter__'', ''isPrototypeOf'', ''propertyIsEnumerable'',
      ''toString'', ''valueOf'', ''__proto__'', ''toLocaleString'']"

datatype 'v property = Own 'v | Inherited | Undefined

definition get_property :: "(string \<times> 'v) list \<Rightarrow> string \<Rightarrow> 'v property" where
  "get_property obj key =
     (case map_of obj key of
        Some v \<Rightarrow> Own v
      | None \<Rightarrow> if key \<in> set Object_prototype_names then Inherited else Undefined)"

type_synonym origin_map = "(string \<times> (nat \<times> int list)) list"

text \<open>
  The body of the \<^verbatim>\<open>forEach\<close>:
  \<^verbatim>\<open>
  const origin = info.stack;
  if (!originMap[origin]) { originMap[origin] = { count: 0, ids: [] }; }
  originMap[origin].count += 1;
  originMap[origin].ids.push(id);
  \<close>
  An inherited property is a function or an object, which is truthy: nothing is
  assigned, \<^verbatim>\<open>count\<close> is set on the inherited value, its \<^verbatim>\<open>ids\<close> is
  \<^verbatim>\<open>undefined\<close> and the \<^verbatim>\<open>push\<close> throws a \<^verbatim>\<open>TypeError\<close>.
\<close>

definition count_origin :: "origin_map \<Rightarrow> int \<times> TimerInfo \<Rightarrow> js_error + origin_map" where
  "count_origin originMap entry =
     (let tid = fst entry;
          origin = stack (snd entry);
          originMap1 = (case get_property originMap origin of
                          Undefined \<Rightarrow> originMap @ [(origin, (0, []))]
                        | _ \<Rightarrow> originMap)
      in case get_property originMap1 origin of
           Own (count, ids) \<Rightarrow> Inr (Map_set origin (count + 1, ids @ [tid]) originMap1)
         | _ \<Rightarrow> Inl (TypeError ''originMap[origin].ids is undefined''))"

fun forEach_count_origin :: "(int \<times> TimerInfo) list \<Rightarrow> origin_map \<Rightarrow> js_error + origin_map" where
  "forEach_count_origin [] originMap = Inr originMap"
| "forEach_count_origin (entry # entries) originMap =
     (case count_origin originMap entry of
        Inl err \<Rightarrow> Inl err
      | Inr originMap' \<Rightarrow> forEach_count_origin entries originMap')"

text \<open>
  \<^verbatim>\<open>Object.entries\<close> lists the own properties whose names are array indices
  (canonical decimal texts of the integers below \<open>2\<^sup>3\<^sup>2 - 1\<close>) first, in ascending
  order, and then the others in creation order.
\<close>

definition is_digit :: "char \<Rightarrow> bool" where
  "is_digit c = (c \<in> set ''0123456789'')"

definition digits_value :: "string \<Rightarrow> nat" where
  "digits_value s = foldl (\<lambda>n c. 10 * n + (of_char c - 48)) 0 s"

definition is_array_index :: "string \<Rightarrow> bool" where
  "is_array_index s =
     (s \<noteq> [] \<and> list_all is_digit s \<and> (length s = 1 \<or> hd s \<noteq> CHR ''0'')
      \<and> digits_value s < 4294967295)"

definition Object_entries :: "(string \<times> 'v) list \<Rightarrow> (string \<times> 'v) list" where
  "Object_entries obj =
     sort_key (\<lambda>(key, v). digits_value key) (filter (\<lambda>(key, v). is_array_index key) obj)
     @ filter (\<lambda>(key, v). \<not> is_array_index key) obj"

text \<open>\<^verbatim>\<open>Array.prototype.join\<close> on texts.\<close>

fun join :: "string \<Rightarrow> string list \<Rightarrow> string" where
  "join sep [] = []"
| "join sep [x] = x"
| "join sep (x # y # ys) = x @ sep @ join sep (y # ys)"

definition duplicates :: "host \<Rightarrow> origin_map \<Rightarrow> js_value list" where
  "duplicates h originMap =
     map (\<lambda>(origin, (count, ids)).
           JObject [(''origin'', JString origin),
                    (''count'', JNumber (Num (int count))),
                    (''ids'', JString (join '', '' (map (Number_toString h) ids)))])
         (filter (\<lambda>(origin, (count, ids)). count > 1) (Object_entries originMap))"

text \<open>
  \<^verbatim>\<open>report()\<close>, lines 82 to 149. The console texts are the source's without their
  leading pictographs. An exception of the \<^verbatim>\<open>forEach\<close> leaves the function with the
  tables printed so far.
\<close>

definition report :: "host \<Rightarrow> env \<Rightarrow> ('f, 'a) state \<Rightarrow> (js_error + unit) \<times> ('f, 'a) state" where
  "report h e s =
     (let now = Date_now e;
          tos = timeouts s;
          ivs = intervals s;
          header = [GroupCollapsed (''Active Timers Report ('' @ toLocaleTimeString h (new_Date e) @ '')'')]
      in if length tos = 0 \<and> length ivs = 0
         then (Inr (), log (header @ [Info ''No active timeouts or intervals.'', GroupEnd]) s)
         else
           (let tables =
                  (if length tos > 0 then [Group ''Timeouts'', Table (timer_rows h now tos), GroupEnd] else [])
                  @ (if length ivs > 0 then [Group ''Intervals'', Table (timer_rows h now ivs), GroupEnd] else [])
            in case forEach_count_origin (tos @ ivs) [] of
                 Inl err \<Rightarrow> (Inl err, log (header @ tables) s)
               | Inr originMap \<Rightarrow>
                   (let dups = duplicates h originMap
                    in (Inr (),
                        log (header @ tables
                             @ (if length dups > 0
                                then [Group ''Duplicate Timer Origins'', Table dups, GroupEnd] else [])
                             @ [GroupEnd]) s))))"

text \<open>The object \<^verbatim>\<open>data\<close> of \<^verbatim>\<open>copyReportToClipboard()\<close>, lines 153 to 169.\<close>

definition copy_rows :: "host \<Rightarrow> int \<Rightarrow> (int \<times> TimerInfo) list \<Rightarrow> js_value list" where
  "copy_rows h now entries =
     map (\<lambda>(tid, info).
           JObject [(''id'', JNumber (Num tid)),
                    (''delay'', JNumber (delay info)),
                    (''created'', JString (toISOString h (createdAt info))),
                    (''ageSeconds'', JString (toFixed1 h (now - createdAt info))),
                    (''origin'', JString (stack info))])
         entries"

definition copy_data :: "host \<Rightarrow> env \<Rightarrow> ('f, 'a) state \<Rightarrow> js_value" where
  "copy_data h e s =
     (let now = Date_now e
      in JObject [(''time'', JString (toLocaleTimeString h (new_Date e))),
                  (''timeouts'', JArray (copy_rows h now (timeouts s))),
                  (''intervals'', JArray (copy_rows h now (intervals s)))])"

text \<open>
  \<^verbatim>\<open>
  navigator.clipboard.writeText(JSON.stringify(data, null, 2))
      .then(() => console.info('Timer report copied to clipboard!'))
      .catch(err => {
          if (err instanceof DOMException && err.name === 'NotAllowedError') {
              console.warn('Copy failed: Clipboard access denied. ' + ...);
          } else {
              console.warn('Failed to copy timer report:', err);
          }
      });
  \<close>
  Where \<^verbatim>\<open>navigator.clipboard\<close> is \<^verbatim>\<open>undefined\<close> (a page outside a secure
  context, a browser without the asynchronous clipboard) reading its
  \<^verbatim>\<open>writeText\<close> throws a \<^verbatim>\<open>TypeError\<close> before anything is written. The
  handlers of the promise run after the call has returned; what they print is appended
  to the console all the same. The texts are the source's without their pictographs
  and quotation marks.
\<close>

definition is_NotAllowedError :: "js_error \<Rightarrow> bool" where
  "is_NotAllowedError err = (case err of DOMException name \<Rightarrow> name = ''NotAllowedError'' | _ \<Rightarrow> False)"

definition copyReportToClipboard ::
  "host \<Rightarrow> env \<Rightarrow> ('f, 'a) state \<Rightarrow> (js_error + unit) \<times> ('f, 'a) state" where
  "copyReportToClipboard h e s =
     (let data = copy_data h e s
      in case clipboard e of
           NoClipboard \<Rightarrow> (Inl (TypeError ''navigator.clipboard is undefined''), s)
         | WriteResolves \<Rightarrow>
             (Inr (),
              log [Info ''Timer report copied to clipboard!'']
                (s\<lparr>clipboard_writes := clipboard_writes s @ [JSON_stringify h data]\<rparr>))
         | WriteRejects err \<Rightarrow>
             (Inr (),
              log [if is_NotAllowedError err
                   then Warn (''Copy failed: Clipboard access denied. ''
                              @ ''Use the Copy Timer Report button or call this from a user click.'') []
                   else Warn ''Failed to copy timer report:'' [err]] s))"

text \<open>Reading a field of an object.\<close>

definition field :: "js_value \<Rightarrow> string \<Rightarrow> js_value option" where
  "field v key = (case v of JObject kvs \<Rightarrow> map_of kvs key | _ \<Rightarrow> None)"




section \<open>A host for the worked examples\<close>

text \<open>
  The examples run in a deterministic stand-in for the host: a number prints in
  decimal, a time value prints as the decimal text of its milliseconds after the name
  of the rendering, and \<^verbatim>\<open>toFixed(1)\<close> cuts the seconds off after the tenths.
\<close>

fun show_nat :: "nat \<Rightarrow> string" where
  "show_nat n =
     (if n < 10 then [''0123456789'' ! n] else show_nat (n div 10) @ [''0123456789'' ! (n mod 10)])"

declare show_nat.simps [simp del]

definition show_int :: "int \<Rightarrow> string" where
  "show_int i = (if i < 0 then CHR ''-'' # show_nat (nat (- i)) else show_nat (nat i))"

fun show_value :: "js_value \<Rightarrow> string" where
  "show_value (JNumber n) = (case n of Num i \<Rightarrow> show_int i | NaN \<Rightarrow> ''null'')"
| "show_value (JString s) = CHR 0x22 # s @ [CHR 0x22]"
| "show_value (JArray vs) = ''['' @ join '','' (map show_value vs) @ '']''"
| "show_value (JObject kvs) =
     ''{'' @ join '','' (map (\<lambda>(k, v). CHR 0x22 # k @ [CHR 0x22] @ '':'' @ show_value v) kvs) @ ''}''"

definition example_host :: host where
  "example_host =
     \<lparr>toLocaleTimeString = (\<lambda>t. ''time '' @ show_int t),
      toISOString = (\<lambda>t. ''iso '' @ show_int t),
      toFixed1 = (\<lambda>k. show_int (k div 1000) @ ''.'' @ show_int (k mod 1000 div 100)),
      Number_toString = show_int,
      JSON_stringify = show_value\<rparr>"

text \<open>
  An environment in which the native registration does \<open>r\<close> at time \<open>t\<close>, called from
  a place whose stack text is \<open>st\<close>; and the stack text V8 gives a call of the wrapper
  from \<open>site\<close>.
\<close>

definition example_env :: "js_error + int \<Rightarrow> int \<Rightarrow> string option \<Rightarrow> env" where
  "example_env r t st =
     \<lparr>native_returns = r, Date_now = t, new_Date = t, Error_stack = st, clipboard = WriteResolves\<rparr>"

definition v8_stack :: "string \<Rightarrow> string" where
  "v8_stack site =
     ''Error'' @ [CHR 0x0A]
     @ ''    at getStackTag (index.js:32:21)'' @ [CHR 0x0A]
     @ ''    at window.setTimeout (index.js:46:20)'' @ [CHR 0x0A]
     @ ''    at '' @ site @ [CHR 0x0A]
     @ ''    at main (app.js:1:1)''"

section \<open>Properties of the map operations\<close>

lemma run_Nil [simp]: "run [] s = s" by (simp add: run_def)
lemma run_Cons [simp]: "run (c # cs) s = run cs (step c s)" by (simp add: run_def)
lemma run_snoc [simp]: "run (cs @ [c]) s = step c (run cs s)" by (simp add: run_def)

lemma Map_keys_Nil [simp]: "Map_keys [] = []"
  by (simp add: Map_keys_def)

lemma Map_keys_Cons [simp]: "Map_keys (p # m) = fst p # Map_keys m"
  by (simp add: Map_keys_def)

lemma Map_delete_Nil [simp]: "Map_delete k [] = []"
  by (simp add: Map_delete_def)

lemma Map_delete_Cons [simp]:
  "Map_delete k (p # m) = (if fst p = k then Map_delete k m else p # Map_delete k m)"
  by (cases p) (simp add: Map_delete_def)

lemma Map_delete_keys: "set (Map_keys (Map_delete k m)) = set (Map_keys m) - {k}"
  by (induction m) auto

lemma Map_delete_absent: "k \<notin> set (Map_keys m) \<Longrightarrow> Map_delete k m = m"
  by (induction m) auto

lemma Map_set_length: "k \<in> set (Map_keys m) \<Longrightarrow> length (Map_set k v m) = length m"
  by (induction m) auto

lemma Map_set_keys_present: "k \<in> set (Map_keys m) \<Longrightarrow> Map_keys (Map_set k v m) = Map_keys m"
  by (induction m) auto

lemma Map_set_keys_absent: "k \<notin> set (Map_keys m) \<Longrightarrow> Map_keys (Map_set k v m) = Map_keys m @ [k]"
  by (induction m) auto

lemma Map_set_distinct: "distinct (Map_keys m) \<Longrightarrow> distinct (Map_keys (Map_set k v m))"
  by (cases "k \<in> set (Map_keys m)") (simp_all add: Map_set_keys_present Map_set_keys_absent)

lemma Map_delete_distinct: "distinct (Map_keys m) \<Longrightarrow> distinct (Map_keys (Map_delete k m))"
  by (induction m) (auto simp: Map_delete_keys)

lemma Map_get_set: "Map_get (Map_set k v m) k' = (if k' = k then Some v else Map_get m k')"
  by (induction m) (auto simp: Map_get_def)

lemma Map_entry_key: "(k, v) \<in> set m \<Longrightarrow> k \<in> set (Map_keys m)"
  by (induction m) auto

lemma Map_set_entries:
  "distinct (Map_keys m) \<Longrightarrow> set (Map_set k v m) = insert (k, v) {(k', v'). (k', v') \<in> set m \<and> k' \<noteq> k}"
proof (induction m)
  case Nil
  then show ?case by simp
next
  case (Cons p m)
  obtain a b where p: "p = (a, b)" by (cases p)
  show ?case
  proof (cases "a = k")
    case True
    with Cons.prems p have "k \<notin> set (Map_keys m)" by simp
    then have "\<And>v'. (k, v') \<notin> set m" using Map_entry_key by fast
    with True p show ?thesis by auto
  next
    case False
    with Cons p show ?thesis by auto
  qed
qed

lemma Map_delete_entries: "set (Map_delete k m) = {(k', v'). (k', v') \<in> set m \<and> k' \<noteq> k}"
  by (induction m) auto

lemma Map_keys_set: "set (Map_keys (Map_set k v m)) = insert k (set (Map_keys m))"
  by (cases "k \<in> set (Map_keys m)")
     (simp_all add: Map_set_keys_present Map_set_keys_absent insert_absorb)

section \<open>The registry mirrors the calls\<close>

lemma snoc_eq_split:
  "xs @ [x] = pre @ c # post \<longleftrightarrow>
     (post = [] \<and> xs = pre \<and> x = c) \<or> (\<exists>post'. post = post' @ [x] \<and> xs = pre @ c # post')"
  by (cases post rule: rev_cases) auto

lemma registered_not_cancelled_Nil: "\<not> registered_not_cancelled registers cancel [] h"
  by (simp add: registered_not_cancelled_def)

lemma registered_not_cancelled_snoc:
  "registered_not_cancelled registers cancel (cs @ [x]) h \<longleftrightarrow>
     (\<exists>r. registers x = Some (h, r)) \<or> (registered_not_cancelled registers cancel cs h \<and> x \<noteq> cancel h)"
  (is "?L \<longleftrightarrow> ?R")
proof
  assume ?L
  then obtain pre c post r where
    split: "cs @ [x] = pre @ c # post" and reg: "registers c = Some (h, r)"
    and nc: "cancel h \<notin> set post"
    unfolding registered_not_cancelled_def by blast
  from split consider "post = []" "x = c"
    | post' where "post = post' @ [x]" "cs = pre @ c # post'"
    unfolding snoc_eq_split by blast
  then show ?R
  proof cases
    case 1
    with reg show ?thesis by blast
  next
    case 2
    with reg nc have "registered_not_cancelled registers cancel cs h"
      unfolding registered_not_cancelled_def by auto
    moreover from 2 nc have "x \<noteq> cancel h" by auto
    ultimately show ?thesis by blast
  qed
next
  assume ?R
  then show ?L
  proof
    assume "\<exists>r. registers x = Some (h, r)"
    then have "cs @ [x] = cs @ x # [] \<and> (\<exists>r. registers x = Some (h, r)) \<and> cancel h \<notin> set []"
      by simp
    then show ?L unfolding registered_not_cancelled_def by blast
  next
    assume r: "registered_not_cancelled registers cancel cs h \<and> x \<noteq> cancel h"
    then obtain pre c post where
      "cs = pre @ c # post" "\<exists>r. registers c = Some (h, r)" "cancel h \<notin> set post"
      unfolding registered_not_cancelled_def by blast
    with r have "cs @ [x] = pre @ c # (post @ [x]) \<and> (\<exists>r. registers c = Some (h, r))
        \<and> cancel h \<notin> set (post @ [x])"
      by auto
    then show ?L unfolding registered_not_cancelled_def by blast
  qed
qed

lemma live_record_Nil: "\<not> live_record registers cancel [] h r"
  by (simp add: live_record_def)

lemma live_record_snoc:
  "live_record registers cancel (cs @ [x]) h r \<longleftrightarrow>
     registers x = Some (h, r)
     \<or> (live_record registers cancel cs h r \<and> x \<noteq> cancel h \<and> (\<forall>r'. registers x \<noteq> Some (h, r')))"
  (is "?L \<longleftrightarrow> ?R")
proof
  assume ?L
  then obtain pre c post where
    split: "cs @ [x] = pre @ c # post" and reg: "registers c = Some (h, r)"
    and nc: "cancel h \<notin> set post"
    and last: "\<forall>c' \<in> set post. \<forall>r'. registers c' \<noteq> Some (h, r')"
    unfolding live_record_def by blast
  from split consider "post = []" "x = c"
    | post' where "post = post' @ [x]" "cs = pre @ c # post'"
    unfolding snoc_eq_split by blast
  then show ?R
  proof cases
    case 1
    with reg show ?thesis by blast
  next
    case 2
    with reg nc last have "live_record registers cancel cs h r"
      unfolding live_record_def by auto
    moreover from 2 nc have "x \<noteq> cancel h" by auto
    moreover from 2 last have "\<forall>r'. registers x \<noteq> Some (h, r')" by auto
    ultimately show ?thesis by blast
  qed
next
  assume ?R
  then show ?L
  proof
    assume "registers x = Some (h, r)"
    then have "cs @ [x] = cs @ x # [] \<and> registers x = Some (h, r) \<and> cancel h \<notin> set []
        \<and> (\<forall>c' \<in> set []. \<forall>r'. registers c' \<noteq> Some (h, r'))"
      by simp
    then show ?L unfolding live_record_def by blast
  next
    assume r: "live_record registers cancel cs h r \<and> x \<noteq> cancel h
        \<and> (\<forall>r'. registers x \<noteq> Some (h, r'))"
    then obtain pre c post where
      "cs = pre @ c # post" "registers c = Some (h, r)" "cancel h \<notin> set post"
      "\<forall>c' \<in> set post. \<forall>r'. registers c' \<noteq> Some (h, r')"
      unfolding live_record_def by blast
    with r have "cs @ [x] = pre @ c # (post @ [x]) \<and> registers c = Some (h, r)
        \<and> cancel h \<notin> set (post @ [x])
        \<and> (\<forall>c' \<in> set (post @ [x]). \<forall>r'. registers c' \<noteq> Some (h, r'))"
      by auto
    then show ?L unfolding live_record_def by blast
  qed
qed


lemma step_timeouts:
  "timeouts (step c s) =
     (case registers_timeout c of
        Some (h, r) \<Rightarrow> Map_set h r (timeouts s)
      | None \<Rightarrow> (case c of ClearTimeout (Some h) \<Rightarrow> Map_delete h (timeouts s) | _ \<Rightarrow> timeouts s))"
  by (cases c)
     (auto simp: registers_timeout_def window_setTimeout_def window_clearTimeout_def
        window_setInterval_def window_clearInterval_def Let_def split: sum.splits option.splits)

lemma registers_timeout_not_cancel: "registers_timeout c = Some p \<Longrightarrow> c \<noteq> ClearTimeout x"
  by (auto simp: registers_timeout_def)

lemma timeouts_run_distinct: "distinct (Map_keys (timeouts (run cs init)))"
proof (induction cs rule: rev_induct)
  case Nil
  show ?case by (simp add: init_def)
next
  case (snoc c cs)
  then show ?case
    by (auto simp: step_timeouts Map_set_distinct Map_delete_distinct
          simp del: step.simps split: option.splits call.splits)
qed

lemma timeouts_run_entries:
  "set (timeouts (run cs init)) =
     {(h, r). live_record registers_timeout (\<lambda>h. ClearTimeout (Some h)) cs h r}"
proof (induction cs rule: rev_induct)
  case Nil
  show ?case by (simp add: init_def live_record_Nil)
next
  case (snoc c cs)
  let ?m = "timeouts (run cs init)"
  have d: "distinct (Map_keys ?m)" by (rule timeouts_run_distinct)
  show ?case
  proof (cases "registers_timeout c")
    case (Some p)
    obtain k v where p: "p = (k, v)" by (cases p)
    have nc: "\<And>x. c \<noteq> ClearTimeout x"
      using Some by (rule registers_timeout_not_cancel)
    have "set (timeouts (run (cs @ [c]) init)) = insert (k, v) {(k', v'). (k', v') \<in> set ?m \<and> k' \<noteq> k}"
      using Some p d by (simp add: step_timeouts Map_set_entries del: step.simps)
    also have "\<dots> = {(h, r). live_record registers_timeout (\<lambda>h. ClearTimeout (Some h)) (cs @ [c]) h r}"
      using Some p nc snoc.IH by (auto simp: live_record_snoc)
    finally show ?thesis .
  next
    case None
    show ?thesis
    proof (cases "\<exists>k. c = ClearTimeout (Some k)")
      case True
      then obtain k where k: "c = ClearTimeout (Some k)" by blast
      have "set (timeouts (run (cs @ [c]) init)) = {(k', v'). (k', v') \<in> set ?m \<and> k' \<noteq> k}"
        using None k by (simp add: step_timeouts Map_delete_entries del: step.simps)
      also have "\<dots> = {(h, r). live_record registers_timeout (\<lambda>h. ClearTimeout (Some h)) (cs @ [c]) h r}"
        using None k snoc.IH by (auto simp: live_record_snoc)
      finally show ?thesis .
    next
      case False
      then have "timeouts (run (cs @ [c]) init) = ?m"
        using None by (auto simp: step_timeouts simp del: step.simps split: call.splits option.splits)
      moreover have "\<And>h r. live_record registers_timeout (\<lambda>h. ClearTimeout (Some h)) (cs @ [c]) h r
          \<longleftrightarrow> live_record registers_timeout (\<lambda>h. ClearTimeout (Some h)) cs h r"
        using None False by (auto simp: live_record_snoc)
      ultimately show ?thesis using snoc.IH by simp
    qed
  qed
qed

lemma timeouts_run_keys:
  "set (Map_keys (timeouts (run cs init))) =
     {h. registered_not_cancelled registers_timeout (\<lambda>h. ClearTimeout (Some h)) cs h}"
proof (induction cs rule: rev_induct)
  case Nil
  show ?case by (simp add: init_def registered_not_cancelled_Nil)
next
  case (snoc c cs)
  let ?m = "timeouts (run cs init)"
  show ?case
  proof (cases "registers_timeout c")
    case (Some p)
    obtain k v where p: "p = (k, v)" by (cases p)
    have nc: "\<And>x. c \<noteq> ClearTimeout x"
      using Some by (rule registers_timeout_not_cancel)
    show ?thesis
      using Some p nc snoc.IH
      by (auto simp: step_timeouts Map_keys_set registered_not_cancelled_snoc simp del: step.simps)
  next
    case None
    show ?thesis
    proof (cases "\<exists>k. c = ClearTimeout (Some k)")
      case True
      then obtain k where k: "c = ClearTimeout (Some k)" by blast
      show ?thesis
        using None k snoc.IH
        by (auto simp: step_timeouts Map_delete_keys registered_not_cancelled_snoc simp del: step.simps)
    next
      case False
      then have "timeouts (run (cs @ [c]) init) = ?m"
        using None by (auto simp: step_timeouts simp del: step.simps split: call.splits option.splits)
      moreover have "\<And>h. registered_not_cancelled registers_timeout (\<lambda>h. ClearTimeout (Some h)) (cs @ [c]) h
          \<longleftrightarrow> registered_not_cancelled registers_timeout (\<lambda>h. ClearTimeout (Some h)) cs h"
        using None False by (auto simp: registered_not_cancelled_snoc)
      ultimately show ?thesis using snoc.IH by simp
    qed
  qed
qed

lemma step_intervals:
  "intervals (step c s) =
     (case registers_interval c of
        Some (h, r) \<Rightarrow> Map_set h r (intervals s)
      | None \<Rightarrow> (case c of ClearInterval (Some h) \<Rightarrow> Map_delete h (intervals s) | _ \<Rightarrow> intervals s))"
  by (cases c)
     (auto simp: registers_interval_def window_setTimeout_def window_clearTimeout_def
        window_setInterval_def window_clearInterval_def Let_def split: sum.splits option.splits)

lemma registers_interval_not_cancel: "registers_interval c = Some p \<Longrightarrow> c \<noteq> ClearInterval x"
  by (auto simp: registers_interval_def)

lemma intervals_run_distinct: "distinct (Map_keys (intervals (run cs init)))"
proof (induction cs rule: rev_induct)
  case Nil
  show ?case by (simp add: init_def)
next
  case (snoc c cs)
  then show ?case
    by (auto simp: step_intervals Map_set_distinct Map_delete_distinct
          simp del: step.simps split: option.splits call.splits)
qed

lemma intervals_run_entries:
  "set (intervals (run cs init)) =
     {(h, r). live_record registers_interval (\<lambda>h. ClearInterval (Some h)) cs h r}"
proof (induction cs rule: rev_induct)
  case Nil
  show ?case by (simp add: init_def live_record_Nil)
next
  case (snoc c cs)
  let ?m = "intervals (run cs init)"
  have d: "distinct (Map_keys ?m)" by (rule intervals_run_distinct)
  show ?case
  proof (cases "registers_interval c")
    case (Some p)
    obtain k v where p: "p = (k, v)" by (cases p)
    have nc: "\<And>x. c \<noteq> ClearInterval x"
      using Some by (rule registers_interval_not_cancel)
    have "set (intervals (run (cs @ [c]) init)) = insert (k, v) {(k', v'). (k', v') \<in> set ?m \<and> k' \<noteq> k}"
      using Some p d by (simp add: step_intervals Map_set_entries del: step.simps)
    also have "\<dots> = {(h, r). live_record registers_interval (\<lambda>h. ClearInterval (Some h)) (cs @ [c]) h r}"
      using Some p nc snoc.IH by (auto simp: live_record_snoc)
    finally show ?thesis .
  next
    case None
    show ?thesis
    proof (cases "\<exists>k. c = ClearInterval (Some k)")
      case True
      then obtain k where k: "c = ClearInterval (Some k)" by blast
      have "set (intervals (run (cs @ [c]) init)) = {(k', v'). (k', v') \<in> set ?m \<and> k' \<noteq> k}"
        using None k by (simp add: step_intervals Map_delete_entries del: step.simps)
      also have "\<dots> = {(h, r). live_record registers_interval (\<lambda>h. ClearInterval (Some h)) (cs @ [c]) h r}"
        using None k snoc.IH by (auto simp: live_record_snoc)
      finally show ?thesis .
    next
      case False
      then have "intervals (run (cs @ [c]) init) = ?m"
        using None by (auto simp: step_intervals simp del: step.simps split: call.splits option.splits)
      moreover have "\<And>h r. live_record registers_interval (\<lambda>h. ClearInterval (Some h)) (cs @ [c]) h r
          \<longleftrightarrow> live_record registers_interval (\<lambda>h. ClearInterval (Some h)) cs h r"
        using None False by (auto simp: live_record_snoc)
      ultimately show ?thesis using snoc.IH by simp
    qed
  qed
qed

lemma intervals_run_keys:
  "set (Map_keys (intervals (run cs init))) =
     {h. registered_not_cancelled registers_interval (\<lambda>h. ClearInterval (Some h)) cs h}"
proof (induction cs rule: rev_induct)
  case Nil
  show ?case by (simp add: init_def registered_not_cancelled_Nil)
next
  case (snoc c cs)
  let ?m = "intervals (run cs init)"
  show ?case
  proof (cases "registers_interval c")
    case (Some p)
    obtain k v where p: "p = (k, v)" by (cases p)
    have nc: "\<And>x. c \<noteq> ClearInterval x"
      using Some by (rule registers_interval_not_cancel)
    show ?thesis
      using Some p nc snoc.IH
      by (auto simp: step_intervals Map_keys_set registered_not_cancelled_snoc simp del: step.simps)
  next
    case None
    show ?thesis
    proof (cases "\<exists>k. c = ClearInterval (Some k)")
      case True
      then obtain k where k: "c = ClearInterval (Some k)" by blast
      show ?thesis
        using None k snoc.IH
        by (auto simp: step_intervals Map_delete_keys registered_not_cancelled_snoc simp del: step.simps)
    next
      case False
      then have "intervals (run (cs @ [c]) init) = ?m"
        using None by (auto simp: step_intervals simp del: step.simps split: call.splits option.splits)
      moreover have "\<And>h. registered_not_cancelled registers_interval (\<lambda>h. ClearInterval (Some h)) (cs @ [c]) h
          \<longleftrightarrow> registered_not_cancelled registers_interval (\<lambda>h. ClearInterval (Some h)) cs h"
        using None False by (auto simp: registered_not_cancelled_snoc)
      ultimately show ?thesis using snoc.IH by simp
    qed
  qed
qed


lemmas example_defs =
  init_def example_env_def v8_stack_def example_host_def
  window_setTimeout_def window_clearTimeout_def window_setInterval_def window_clearInterval_def
  getActiveTimeouts_def getActiveIntervals_def
  getStackTag_def trim_def isWhiteSpace_def or_zero_def truthy_def Let_def

text \<open>
  C1. After every sequence of calls from the start, the entries of
  \<^verbatim>\<open>getActiveTimeouts()\<close> are exactly the handles registered by a call of the
  wrapped \<^verbatim>\<open>setTimeout\<close> and not cancelled by a later call of the wrapped
  \<^verbatim>\<open>clearTimeout\<close>, each once and with the record of its last registration; the
  same holds of \<^verbatim>\<open>getActiveIntervals()\<close>; and a timer that fires stays in both.
\<close>

theorem registry_mirrors_calls:
  "set (getActiveTimeouts (run cs init)) =
     {(h, r). live_record registers_timeout (\<lambda>h. ClearTimeout (Some h)) cs h r}
   \<and> set (Map_keys (getActiveTimeouts (run cs init))) =
     {h. registered_not_cancelled registers_timeout (\<lambda>h. ClearTimeout (Some h)) cs h}
   \<and> distinct (Map_keys (getActiveTimeouts (run cs init)))
   \<and> set (getActiveIntervals (run cs init)) =
     {(h, r). live_record registers_interval (\<lambda>h. ClearInterval (Some h)) cs h r}
   \<and> set (Map_keys (getActiveIntervals (run cs init))) =
     {h. registered_not_cancelled registers_interval (\<lambda>h. ClearInterval (Some h)) cs h}
   \<and> distinct (Map_keys (getActiveIntervals (run cs init)))
   \<and> getActiveTimeouts (run (cs @ [HostFires h]) init) = getActiveTimeouts (run cs init)
   \<and> getActiveIntervals (run (cs @ [HostFires h]) init) = getActiveIntervals (run cs init)"
  unfolding getActiveTimeouts_def getActiveIntervals_def
  using timeouts_run_entries[of cs] timeouts_run_keys[of cs] timeouts_run_distinct[of cs]
    intervals_run_entries[of cs] intervals_run_keys[of cs] intervals_run_distinct[of cs]
  by simp

theorem registry_mirrors_calls_witness:
  "registered_not_cancelled registers_timeout (\<lambda>h. ClearTimeout (Some h))
     [SetTimeout ''tick'' (Some (Num 5000)) ([] :: string list) (example_env (Inr 1) 1000 None),
      SetInterval ''poll'' (Some (Num 1000)) [] (example_env (Inr 2) 2000 None),
      SetTimeout ''tick'' None [] (example_env (Inr 3) 3000 None),
      ClearTimeout (Some 1), HostFires 3] 3
   \<and> \<not> registered_not_cancelled registers_timeout (\<lambda>h. ClearTimeout (Some h))
     [SetTimeout ''tick'' (Some (Num 5000)) ([] :: string list) (example_env (Inr 1) 1000 None),
      SetInterval ''poll'' (Some (Num 1000)) [] (example_env (Inr 2) 2000 None),
      SetTimeout ''tick'' None [] (example_env (Inr 3) 3000 None),
      ClearTimeout (Some 1), HostFires 3] 1
   \<and> live_record registers_interval (\<lambda>h. ClearInterval (Some h))
     [SetTimeout ''tick'' (Some (Num 5000)) ([] :: string list) (example_env (Inr 1) 1000 None),
      SetInterval ''poll'' (Some (Num 1000)) [] (example_env (Inr 2) 2000 None),
      SetTimeout ''tick'' None [] (example_env (Inr 3) 3000 None),
      ClearTimeout (Some 1), HostFires 3] 2
     \<lparr>createdAt = 2000, delay = Num 1000, stack = ''unknown''\<rparr>"
proof -
  let ?cs = "[SetTimeout ''tick'' (Some (Num 5000)) ([] :: string list) (example_env (Inr 1) 1000 None),
      SetInterval ''poll'' (Some (Num 1000)) [] (example_env (Inr 2) 2000 None),
      SetTimeout ''tick'' None [] (example_env (Inr 3) 3000 None),
      ClearTimeout (Some 1), HostFires 3]"
  have t: "getActiveTimeouts (run ?cs init) =
      [(3, \<lparr>createdAt = 3000, delay = Num 0, stack = ''unknown''\<rparr>)]"
    by (simp add: example_defs)
  have i: "getActiveIntervals (run ?cs init) =
      [(2, \<lparr>createdAt = 2000, delay = Num 1000, stack = ''unknown''\<rparr>)]"
    by (simp add: example_defs)
  note m = registry_mirrors_calls[of ?cs 3]
  from m have "set (Map_keys (getActiveTimeouts (run ?cs init))) =
      {h. registered_not_cancelled registers_timeout (\<lambda>h. ClearTimeout (Some h)) ?cs h}"
    by blast
  then have k: "{h. registered_not_cancelled registers_timeout (\<lambda>h. ClearTimeout (Some h)) ?cs h} = {3}"
    unfolding t by simp
  from m have "set (getActiveIntervals (run ?cs init)) =
      {(h, r). live_record registers_interval (\<lambda>h. ClearInterval (Some h)) ?cs h r}"
    by blast
  then have l: "{(h, r). live_record registers_interval (\<lambda>h. ClearInterval (Some h)) ?cs h r} =
      {(2, \<lparr>createdAt = 2000, delay = Num 1000, stack = ''unknown''\<rparr>)}"
    unfolding i by simp
  from k have "\<forall>h. registered_not_cancelled registers_timeout (\<lambda>h. ClearTimeout (Some h)) ?cs h
      \<longleftrightarrow> h = 3"
    by (simp add: set_eq_iff)
  then have "registered_not_cancelled registers_timeout (\<lambda>h. ClearTimeout (Some h)) ?cs 3"
    and "\<not> registered_not_cancelled registers_timeout (\<lambda>h. ClearTimeout (Some h)) ?cs 1"
    by simp_all
  moreover from l have "\<forall>h r. live_record registers_interval (\<lambda>h. ClearInterval (Some h)) ?cs h r
      \<longleftrightarrow> h = 2 \<and> r = \<lparr>createdAt = 2000, delay = Num 1000, stack = ''unknown''\<rparr>"
    by (simp add: set_eq_iff)
  then have "live_record registers_interval (\<lambda>h. ClearInterval (Some h)) ?cs 2
      \<lparr>createdAt = 2000, delay = Num 1000, stack = ''unknown''\<rparr>"
    by simp
  ultimately show ?thesis by blast
qed

section \<open>Cancellation\<close>

lemma absent_persists_timeouts:
  "h \<notin> set (Map_keys (timeouts s)) \<Longrightarrow> \<forall>c \<in> set cs. \<forall>r. registers_timeout c \<noteq> Some (h, r)
   \<Longrightarrow> h \<notin> set (Map_keys (timeouts (run cs s)))"
proof (induction cs arbitrary: s)
  case Nil
  then show ?case by simp
next
  case (Cons c cs)
  have "h \<notin> set (Map_keys (timeouts (step c s)))"
    using Cons.prems
    by (auto simp: step_timeouts Map_keys_set Map_delete_keys simp del: step.simps
          split: option.splits call.splits)
  with Cons show ?case by simp
qed

lemma absent_persists_intervals:
  "h \<notin> set (Map_keys (intervals s)) \<Longrightarrow> \<forall>c \<in> set cs. \<forall>r. registers_interval c \<noteq> Some (h, r)
   \<Longrightarrow> h \<notin> set (Map_keys (intervals (run cs s)))"
proof (induction cs arbitrary: s)
  case Nil
  then show ?case by simp
next
  case (Cons c cs)
  have "h \<notin> set (Map_keys (intervals (step c s)))"
    using Cons.prems
    by (auto simp: step_intervals Map_keys_set Map_delete_keys simp del: step.simps
          split: option.splits call.splits)
  with Cons show ?case by simp
qed

lemma clearTimeout_removes:
  "h \<notin> set (Map_keys (timeouts (snd (window_clearTimeout (Some h) s))))"
  by (simp add: window_clearTimeout_def Map_delete_keys)

lemma clearInterval_removes:
  "h \<notin> set (Map_keys (intervals (snd (window_clearInterval (Some h) s))))"
  by (simp add: window_clearInterval_def Map_delete_keys)

text \<open>
  C2, as the code has it. The wrapped \<^verbatim>\<open>clearTimeout\<close> never throws. Called with \<open>h\<close> it removes
  \<open>h\<close> from the timeouts, and \<open>h\<close> stays out of every later snapshot for as long as no
  call registers \<open>h\<close> again. Called with a handle that is not in the timeouts it leaves
  both maps as they are; called with \<^verbatim>\<open>undefined\<close> it does nothing at all. The same
  holds of the wrapped \<^verbatim>\<open>clearInterval\<close> and the intervals.
\<close>

theorem cancel_removes_and_tolerates:
  "fst (window_clearTimeout tid s) = Inr ()
   \<and> h \<notin> set (Map_keys (getActiveTimeouts (snd (window_clearTimeout (Some h) s))))
   \<and> ((\<forall>c \<in> set cs. \<forall>r. registers_timeout c \<noteq> Some (h, r)) \<longrightarrow>
        h \<notin> set (Map_keys (getActiveTimeouts (run cs (snd (window_clearTimeout (Some h) s))))))
   \<and> (h \<notin> set (Map_keys (timeouts s)) \<longrightarrow>
        timeouts (snd (window_clearTimeout (Some h) s)) = timeouts s)
   \<and> intervals (snd (window_clearTimeout tid s)) = intervals s
   \<and> window_clearTimeout None s = (Inr (), s)
   \<and> fst (window_clearInterval tid s) = Inr ()
   \<and> h \<notin> set (Map_keys (getActiveIntervals (snd (window_clearInterval (Some h) s))))
   \<and> ((\<forall>c \<in> set cs. \<forall>r. registers_interval c \<noteq> Some (h, r)) \<longrightarrow>
        h \<notin> set (Map_keys (getActiveIntervals (run cs (snd (window_clearInterval (Some h) s))))))
   \<and> (h \<notin> set (Map_keys (intervals s)) \<longrightarrow>
        intervals (snd (window_clearInterval (Some h) s)) = intervals s)
   \<and> timeouts (snd (window_clearInterval tid s)) = timeouts s
   \<and> window_clearInterval None s = (Inr (), s)"
proof -
  have t: "(\<forall>c \<in> set cs. \<forall>r. registers_timeout c \<noteq> Some (h, r)) \<longrightarrow>
      h \<notin> set (Map_keys (timeouts (run cs (snd (window_clearTimeout (Some h) s)))))"
    using absent_persists_timeouts[OF clearTimeout_removes, of cs h s] by blast
  have i: "(\<forall>c \<in> set cs. \<forall>r. registers_interval c \<noteq> Some (h, r)) \<longrightarrow>
      h \<notin> set (Map_keys (intervals (run cs (snd (window_clearInterval (Some h) s)))))"
    using absent_persists_intervals[OF clearInterval_removes, of cs h s] by blast
  have a: "h \<notin> set (Map_keys (timeouts s)) \<longrightarrow>
      timeouts (snd (window_clearTimeout (Some h) s)) = timeouts s"
    by (simp add: window_clearTimeout_def Map_delete_absent)
  have b: "h \<notin> set (Map_keys (intervals s)) \<longrightarrow>
      intervals (snd (window_clearInterval (Some h) s)) = intervals s"
    by (simp add: window_clearInterval_def Map_delete_absent)
  have c: "fst (window_clearTimeout tid s) = Inr ()" "intervals (snd (window_clearTimeout tid s)) = intervals s"
    "fst (window_clearInterval tid s) = Inr ()" "timeouts (snd (window_clearInterval tid s)) = timeouts s"
    by (simp_all add: window_clearTimeout_def window_clearInterval_def split: option.splits)
  have d: "window_clearTimeout None s = (Inr (), s)" "window_clearInterval None s = (Inr (), s)"
    by (simp_all add: window_clearTimeout_def window_clearInterval_def)
  show ?thesis
    unfolding getActiveTimeouts_def getActiveIntervals_def
    using t i a b c d clearTimeout_removes[of h s] clearInterval_removes[of h s] by blast
qed

theorem cancel_removes_and_tolerates_witness:
  "1 \<notin> set (Map_keys (getActiveTimeouts
       (run [HostFires 1, SetInterval ''poll'' None ([] :: string list) (example_env (Inr 1) 4000 None),
             ClearTimeout (Some 1)]
          (snd (window_clearTimeout (Some 1)
             (run [SetTimeout ''tick'' (Some (Num 5000)) [] (example_env (Inr 1) 1000 None),
                   SetInterval ''poll'' None [] (example_env (Inr 2) 2000 None)] init))))))
   \<and> 2 \<notin> set (Map_keys (getActiveIntervals
       (run [HostFires 1, SetTimeout ''tick'' None ([] :: string list) (example_env (Inr 2) 4000 None)]
          (snd (window_clearInterval (Some 2)
             (run [SetTimeout ''tick'' (Some (Num 5000)) [] (example_env (Inr 1) 1000 None),
                   SetInterval ''poll'' None [] (example_env (Inr 2) 2000 None)] init))))))
   \<and> timeouts (snd (window_clearTimeout (Some 7)
         (run [SetTimeout ''tick'' (Some (Num 5000)) ([] :: string list) (example_env (Inr 1) 1000 None),
               SetInterval ''poll'' None [] (example_env (Inr 2) 2000 None)] init)))
       = [(1, \<lparr>createdAt = 1000, delay = Num 5000, stack = ''unknown''\<rparr>)]
   \<and> intervals (snd (window_clearInterval (Some 7)
         (run [SetTimeout ''tick'' (Some (Num 5000)) ([] :: string list) (example_env (Inr 1) 1000 None),
               SetInterval ''poll'' None [] (example_env (Inr 2) 2000 None)] init)))
       = [(2, \<lparr>createdAt = 2000, delay = Num 0, stack = ''unknown''\<rparr>)]"
proof -
  let ?s = "run [SetTimeout ''tick'' (Some (Num 5000)) ([] :: string list) (example_env (Inr 1) 1000 None),
                 SetInterval ''poll'' None [] (example_env (Inr 2) 2000 None)] init"
  let ?after_timeout = "[HostFires 1, SetInterval ''poll'' None ([] :: string list) (example_env (Inr 1) 4000 None),
             ClearTimeout (Some 1)]"
  let ?after_interval = "[HostFires 1, SetTimeout ''tick'' None ([] :: string list) (example_env (Inr 2) 4000 None)]"
  have s: "timeouts ?s = [(1, \<lparr>createdAt = 1000, delay = Num 5000, stack = ''unknown''\<rparr>)]"
    "intervals ?s = [(2, \<lparr>createdAt = 2000, delay = Num 0, stack = ''unknown''\<rparr>)]"
    by (simp_all add: example_defs)
  have no_timeout: "\<forall>c \<in> set ?after_timeout. \<forall>r. registers_timeout c \<noteq> Some (1, r)"
    by (simp add: registers_timeout_def)
  have no_interval: "\<forall>c \<in> set ?after_interval. \<forall>r. registers_interval c \<noteq> Some (2, r)"
    by (simp add: registers_interval_def)
  have absent: "7 \<notin> set (Map_keys (timeouts ?s))" "7 \<notin> set (Map_keys (intervals ?s))"
    unfolding s by simp_all
  from cancel_removes_and_tolerates[of "Some 1" ?s 1 ?after_timeout] no_timeout
  have "1 \<notin> set (Map_keys (getActiveTimeouts (run ?after_timeout (snd (window_clearTimeout (Some 1) ?s)))))"
    by blast
  moreover from cancel_removes_and_tolerates[of "Some 2" ?s 2 ?after_interval] no_interval
  have "2 \<notin> set (Map_keys (getActiveIntervals (run ?after_interval (snd (window_clearInterval (Some 2) ?s)))))"
    by blast
  moreover from cancel_removes_and_tolerates[of "Some 7" ?s 7 "[]"] absent
  have "timeouts (snd (window_clearTimeout (Some 7) ?s)) = timeouts ?s"
    "intervals (snd (window_clearInterval (Some 7) ?s)) = intervals ?s"
    by blast+
  ultimately show ?thesis unfolding s by blast
qed

text \<open>
  C2 as stated fails: the handle 1 is cancelled, the host hands 1 out again to the next
  registration, and the snapshot taken then contains 1.
\<close>

theorem cancelled_handle_reused_counterexample:
  "1 \<notin> set (Map_keys (getActiveTimeouts
       (snd (window_clearTimeout (Some 1)
          (run [SetTimeout ''tick'' (Some (Num 5000)) ([] :: string list)
                  (example_env (Inr 1) 1000 None)] init)))))
   \<and> 1 \<in> set (Map_keys (getActiveTimeouts
       (run [SetTimeout ''tock'' (Some (Num 70)) ([] :: string list) (example_env (Inr 1) 3000 None)]
          (snd (window_clearTimeout (Some 1)
             (run [SetTimeout ''tick'' (Some (Num 5000)) [] (example_env (Inr 1) 1000 None)] init))))))
   \<and> 1 \<in> set (Map_keys (getActiveIntervals
       (run [SetInterval ''tock'' (Some (Num 70)) ([] :: string list) (example_env (Inr 1) 3000 None)]
          (snd (window_clearInterval (Some 1)
             (run [SetInterval ''tick'' (Some (Num 5000)) [] (example_env (Inr 1) 1000 None)] init))))))"
  by (simp add: example_defs)

section \<open>Registration\<close>

text \<open>
  C3. When the native registration throws, the wrapper throws the same value and both
  maps are as before; whenever a call of a wrapper changes its map, the native function
  had returned a handle.
\<close>

theorem native_failure_inserts_nothing:
  "(native_returns e = Inl err \<longrightarrow>
      fst (window_setTimeout fn dly args e s) = Inl err
      \<and> timeouts (snd (window_setTimeout fn dly args e s)) = timeouts s
      \<and> intervals (snd (window_setTimeout fn dly args e s)) = intervals s
      \<and> fst (window_setInterval fn dly args e s) = Inl err
      \<and> timeouts (snd (window_setInterval fn dly args e s)) = timeouts s
      \<and> intervals (snd (window_setInterval fn dly args e s)) = intervals s)
   \<and> (timeouts (snd (window_setTimeout fn dly args e s)) \<noteq> timeouts s \<longrightarrow>
        (\<exists>tid. native_returns e = Inr tid \<and> fst (window_setTimeout fn dly args e s) = Inr tid))
   \<and> (intervals (snd (window_setInterval fn dly args e s)) \<noteq> intervals s \<longrightarrow>
        (\<exists>tid. native_returns e = Inr tid \<and> fst (window_setInterval fn dly args e s) = Inr tid))"
  by (cases "native_returns e") (simp_all add: window_setTimeout_def window_setInterval_def Let_def)

theorem native_failure_inserts_nothing_witness:
  "fst (window_setTimeout ''tick'' (Some (Num 5000)) ([] :: string list)
          (example_env (Inl (TypeError ''not enough arguments'')) 3000 None)
          (run [SetInterval ''poll'' None [] (example_env (Inr 2) 2000 None)] init))
     = Inl (TypeError ''not enough arguments'')
   \<and> timeouts (snd (window_setTimeout ''tick'' (Some (Num 5000)) ([] :: string list)
          (example_env (Inl (TypeError ''not enough arguments'')) 3000 None)
          (run [SetInterval ''poll'' None [] (example_env (Inr 2) 2000 None)] init)))
     = []
   \<and> intervals (snd (window_setInterval ''tick'' (Some (Num 5000)) ([] :: string list)
          (example_env (Inl (TypeError ''not enough arguments'')) 3000 None)
          (run [SetInterval ''poll'' None [] (example_env (Inr 2) 2000 None)] init)))
     = [(2, \<lparr>createdAt = 2000, delay = Num 0, stack = ''unknown''\<rparr>)]
   \<and> native_returns (example_env (Inr 4) 3000 None) = Inr 4
   \<and> timeouts (snd (window_setTimeout ''tick'' None ([] :: string list) (example_env (Inr 4) 3000 None)
          (init :: (string, string) state))) \<noteq> timeouts (init :: (string, string) state)"
proof -
  let ?e = "example_env (Inl (TypeError ''not enough arguments'')) 3000 None"
  let ?s = "run [SetInterval ''poll'' None ([] :: string list) (example_env (Inr 2) 2000 None)] init :: (string, string) state"
  have s: "timeouts ?s = []"
    "intervals ?s = [(2, \<lparr>createdAt = 2000, delay = Num 0, stack = ''unknown''\<rparr>)]"
    by (simp_all add: example_defs)
  have e: "native_returns ?e = Inl (TypeError ''not enough arguments'')"
    by (simp add: example_env_def)
  have changed: "timeouts (snd (window_setTimeout ''tick'' None ([] :: string list)
      (example_env (Inr 4) 3000 None) (init :: (string, string) state))) \<noteq> timeouts (init :: (string, string) state)"
    by (simp add: example_defs)
  from native_failure_inserts_nothing[of ?e "TypeError ''not enough arguments''" "''tick''"
      "Some (Num 5000)" "[]" ?s] e
  have "fst (window_setTimeout ''tick'' (Some (Num 5000)) [] ?e ?s) = Inl (TypeError ''not enough arguments'')"
    "timeouts (snd (window_setTimeout ''tick'' (Some (Num 5000)) [] ?e ?s)) = timeouts ?s"
    "intervals (snd (window_setInterval ''tick'' (Some (Num 5000)) [] ?e ?s)) = intervals ?s"
    by blast+
  moreover from native_failure_inserts_nothing[of "example_env (Inr 4) 3000 None" "TypeError []" "''tick''"
      None "[] :: string list" "init :: (string, string) state"] changed
  have "\<exists>tid. native_returns (example_env (Inr 4) 3000 None) = Inr tid" by blast
  then have "native_returns (example_env (Inr 4) 3000 None) = Inr 4"
    by (simp add: example_env_def)
  ultimately show ?thesis using changed unfolding s by blast
qed

lemma setTimeout_returns:
  "native_returns e = Inr tid \<Longrightarrow>
     window_setTimeout fn dly args e s =
       (Inr tid,
        s\<lparr>native_calls := native_calls s @ [NativeSetTimeout fn dly args],
          timeouts := Map_set tid \<lparr>createdAt = Date_now e, delay = or_zero dly,
                                   stack = getStackTag (Error_stack e)\<rparr> (timeouts s)\<rparr>)"
  by (simp add: window_setTimeout_def Let_def)

lemma setInterval_returns:
  "native_returns e = Inr tid \<Longrightarrow>
     window_setInterval fn dly args e s =
       (Inr tid,
        s\<lparr>native_calls := native_calls s @ [NativeSetInterval fn dly args],
          intervals := Map_set tid \<lparr>createdAt = Date_now e, delay = or_zero dly,
                                    stack = getStackTag (Error_stack e)\<rparr> (intervals s)\<rparr>)"
  by (simp add: window_setInterval_def Let_def)

lemma or_zero_cases:
  "or_zero dly = (case dly of None \<Rightarrow> Num 0 | Some NaN \<Rightarrow> Num 0 | Some (Num n) \<Rightarrow> Num n)"
  by (simp add: or_zero_def truthy_def split: option.splits js_number.splits)

text \<open>
  C4, as the code has it. A registration whose native call returns the handle \<open>tid\<close>
  makes that one native call, with the arguments it was given; returns \<open>tid\<close>; and
  leaves in its map, under \<open>tid\<close>, the record of the current time, the delay and the
  origin tag, every other key and the other map being as before. The recorded delay is
  the given one, and 0 when the delay is omitted, \<^verbatim>\<open>undefined\<close> or \<^verbatim>\<open>NaN\<close>.
\<close>

theorem registration_records_timer:
  "native_returns e = Inr tid \<longrightarrow>
     fst (window_setTimeout fn dly args e s) = Inr tid
     \<and> native_calls (snd (window_setTimeout fn dly args e s)) =
         native_calls s @ [NativeSetTimeout fn dly args]
     \<and> Map_get (timeouts (snd (window_setTimeout fn dly args e s))) tid =
         Some \<lparr>createdAt = Date_now e,
               delay = (case dly of None \<Rightarrow> Num 0 | Some NaN \<Rightarrow> Num 0 | Some (Num n) \<Rightarrow> Num n),
               stack = getStackTag (Error_stack e)\<rparr>
     \<and> (\<forall>k. k \<noteq> tid \<longrightarrow>
           Map_get (timeouts (snd (window_setTimeout fn dly args e s))) k = Map_get (timeouts s) k)
     \<and> intervals (snd (window_setTimeout fn dly args e s)) = intervals s
     \<and> fst (window_setInterval fn dly args e s) = Inr tid
     \<and> native_calls (snd (window_setInterval fn dly args e s)) =
         native_calls s @ [NativeSetInterval fn dly args]
     \<and> Map_get (intervals (snd (window_setInterval fn dly args e s))) tid =
         Some \<lparr>createdAt = Date_now e,
               delay = (case dly of None \<Rightarrow> Num 0 | Some NaN \<Rightarrow> Num 0 | Some (Num n) \<Rightarrow> Num n),
               stack = getStackTag (Error_stack e)\<rparr>
     \<and> (\<forall>k. k \<noteq> tid \<longrightarrow>
           Map_get (intervals (snd (window_setInterval fn dly args e s))) k = Map_get (intervals s) k)
     \<and> timeouts (snd (window_setInterval fn dly args e s)) = timeouts s"
  by (simp add: setTimeout_returns setInterval_returns Map_get_set or_zero_cases)

theorem registration_records_timer_witness:
  "native_returns (example_env (Inr 1) 1000 (Some (v8_stack ''poll (app.js:10:5)''))) = Inr 1
   \<and> fst (window_setTimeout ''tick'' (Some (Num 5000)) [''a'', ''b'']
          (example_env (Inr 1) 1000 (Some (v8_stack ''poll (app.js:10:5)'')))
          (init :: (string, string) state)) = Inr 1
   \<and> native_calls (snd (window_setTimeout ''tick'' (Some (Num 5000)) [''a'', ''b'']
          (example_env (Inr 1) 1000 (Some (v8_stack ''poll (app.js:10:5)'')))
          (init :: (string, string) state))) = [NativeSetTimeout ''tick'' (Some (Num 5000)) [''a'', ''b'']]
   \<and> Map_get (timeouts (snd (window_setTimeout ''tick'' (Some (Num 5000)) [''a'', ''b'']
          (example_env (Inr 1) 1000 (Some (v8_stack ''poll (app.js:10:5)'')))
          (init :: (string, string) state)))) 1
       = Some \<lparr>createdAt = 1000, delay = Num 5000, stack = ''at poll (app.js:10:5)''\<rparr>
   \<and> Map_get (intervals (snd (window_setInterval ''tick'' (Some (Num 5000)) [''a'', ''b'']
          (example_env (Inr 1) 1000 (Some (v8_stack ''poll (app.js:10:5)'')))
          (init :: (string, string) state)))) 1
       = Some \<lparr>createdAt = 1000, delay = Num 5000, stack = ''at poll (app.js:10:5)''\<rparr>"
proof -
  let ?e = "example_env (Inr 1) 1000 (Some (v8_stack ''poll (app.js:10:5)''))"
  have e: "native_returns ?e = Inr 1" "Date_now ?e = 1000"
    by (simp_all add: example_env_def)
  have tag: "getStackTag (Error_stack ?e) = ''at poll (app.js:10:5)''"
    by (simp add: example_defs)
  have nil: "native_calls (init :: (string, string) state) = []"
    by (simp add: init_def)
  from registration_records_timer[of ?e 1 "''tick''" "Some (Num 5000)" "[''a'', ''b'']"
      "init :: (string, string) state"] e
  show ?thesis unfolding tag nil by simp
qed

text \<open>
  C4 as stated fails: registered with the delay \<^verbatim>\<open>NaN\<close>, a timer is recorded with
  the delay 0, not with the delay it was given.
\<close>

theorem registration_delay_counterexample:
  "Map_get (timeouts (snd (window_setTimeout ''tick'' (Some NaN) ([] :: string list)
       (example_env (Inr 1) 1000 None) (init :: (string, string) state)))) 1
     = Some \<lparr>createdAt = 1000, delay = Num 0, stack = ''unknown''\<rparr>
   \<and> Map_get (timeouts (snd (window_setTimeout ''tick'' (Some NaN) ([] :: string list)
       (example_env (Inr 1) 1000 None) (init :: (string, string) state)))) 1
     \<noteq> Some \<lparr>createdAt = 1000, delay = NaN, stack = ''unknown''\<rparr>"
  by (simp add: example_defs Map_get_def)

text \<open>
  C10. In a state reached from the start, a registration whose native call returns a
  handle that is already a key of its map keeps the keys as they are, in number and in
  order and each once, and replaces the record of that handle by the new one.
\<close>

theorem reused_handle_overwrites:
  "native_returns e = Inr tid \<longrightarrow>
     (tid \<in> set (Map_keys (timeouts (run cs init))) \<longrightarrow>
        Map_keys (timeouts (snd (window_setTimeout fn dly args e (run cs init)))) =
          Map_keys (timeouts (run cs init))
        \<and> length (timeouts (snd (window_setTimeout fn dly args e (run cs init)))) =
          length (timeouts (run cs init))
        \<and> distinct (Map_keys (timeouts (snd (window_setTimeout fn dly args e (run cs init)))))
        \<and> {r. (tid, r) \<in> set (timeouts (snd (window_setTimeout fn dly args e (run cs init))))} =
          {\<lparr>createdAt = Date_now e, delay = or_zero dly, stack = getStackTag (Error_stack e)\<rparr>})
     \<and> (tid \<in> set (Map_keys (intervals (run cs init))) \<longrightarrow>
        Map_keys (intervals (snd (window_setInterval fn dly args e (run cs init)))) =
          Map_keys (intervals (run cs init))
        \<and> length (intervals (snd (window_setInterval fn dly args e (run cs init)))) =
          length (intervals (run cs init))
        \<and> distinct (Map_keys (intervals (snd (window_setInterval fn dly args e (run cs init)))))
        \<and> {r. (tid, r) \<in> set (intervals (snd (window_setInterval fn dly args e (run cs init))))} =
          {\<lparr>createdAt = Date_now e, delay = or_zero dly, stack = getStackTag (Error_stack e)\<rparr>})"
proof -
  have t: "distinct (Map_keys (timeouts (run cs init)))" by (rule timeouts_run_distinct)
  have i: "distinct (Map_keys (intervals (run cs init)))" by (rule intervals_run_distinct)
  show ?thesis
    using t i
    by (auto simp: setTimeout_returns setInterval_returns Map_set_keys_present Map_set_length
          Map_set_entries)
qed

theorem reused_handle_overwrites_witness:
  "native_returns (example_env (Inr 1) 9000 None) = Inr 1
   \<and> 1 \<in> set (Map_keys (timeouts (run
        [SetTimeout ''tick'' (Some (Num 5000)) ([] :: string list) (example_env (Inr 1) 1000 None),
         SetInterval ''poll'' None [] (example_env (Inr 1) 2000 None),
         SetTimeout ''tick'' None [] (example_env (Inr 2) 3000 None), HostFires 1] init)))
   \<and> 1 \<in> set (Map_keys (intervals (run
        [SetTimeout ''tick'' (Some (Num 5000)) ([] :: string list) (example_env (Inr 1) 1000 None),
         SetInterval ''poll'' None [] (example_env (Inr 1) 2000 None),
         SetTimeout ''tick'' None [] (example_env (Inr 2) 3000 None), HostFires 1] init)))
   \<and> timeouts (snd (window_setTimeout ''again'' (Some (Num 70)) []
        (example_env (Inr 1) 9000 None)
        (run [SetTimeout ''tick'' (Some (Num 5000)) ([] :: string list) (example_env (Inr 1) 1000 None),
              SetInterval ''poll'' None [] (example_env (Inr 1) 2000 None),
              SetTimeout ''tick'' None [] (example_env (Inr 2) 3000 None), HostFires 1] init)))
     = [(1, \<lparr>createdAt = 9000, delay = Num 70, stack = ''unknown''\<rparr>),
        (2, \<lparr>createdAt = 3000, delay = Num 0, stack = ''unknown''\<rparr>)]
   \<and> length (intervals (snd (window_setInterval ''again'' (Some (Num 70)) []
        (example_env (Inr 1) 9000 None)
        (run [SetTimeout ''tick'' (Some (Num 5000)) ([] :: string list) (example_env (Inr 1) 1000 None),
              SetInterval ''poll'' None [] (example_env (Inr 1) 2000 None),
              SetTimeout ''tick'' None [] (example_env (Inr 2) 3000 None), HostFires 1] init)))) = 1"
proof -
  let ?cs = "[SetTimeout ''tick'' (Some (Num 5000)) ([] :: string list) (example_env (Inr 1) 1000 None),
              SetInterval ''poll'' None [] (example_env (Inr 1) 2000 None),
              SetTimeout ''tick'' None [] (example_env (Inr 2) 3000 None), HostFires 1]"
  let ?e = "example_env (Inr 1) 9000 None"
  have e: "native_returns ?e = Inr 1" by (simp add: example_env_def)
  have s: "timeouts (run ?cs init) =
      [(1, \<lparr>createdAt = 1000, delay = Num 5000, stack = ''unknown''\<rparr>),
       (2, \<lparr>createdAt = 3000, delay = Num 0, stack = ''unknown''\<rparr>)]"
    "intervals (run ?cs init) = [(1, \<lparr>createdAt = 2000, delay = Num 0, stack = ''unknown''\<rparr>)]"
    by (simp_all add: example_defs)
  have k: "1 \<in> set (Map_keys (timeouts (run ?cs init)))" "1 \<in> set (Map_keys (intervals (run ?cs init)))"
    unfolding s by simp_all
  have after: "timeouts (snd (window_setTimeout ''again'' (Some (Num 70)) [] ?e (run ?cs init))) =
      [(1, \<lparr>createdAt = 9000, delay = Num 70, stack = ''unknown''\<rparr>),
       (2, \<lparr>createdAt = 3000, delay = Num 0, stack = ''unknown''\<rparr>)]"
    by (simp add: example_defs)
  from reused_handle_overwrites[of ?e 1 ?cs "''again''" "Some (Num 70)" "[]"] e k
  have "length (intervals (snd (window_setInterval ''again'' (Some (Num 70)) [] ?e (run ?cs init)))) =
      length (intervals (run ?cs init))"
    by blast
  then have "length (intervals (snd (window_setInterval ''again'' (Some (Num 70)) [] ?e (run ?cs init)))) = 1"
    unfolding s by simp
  with e k after show ?thesis by blast
qed

section \<open>The origin tag\<close>

text \<open>The lines of a text hold no line feed, and joined by line feeds they give the text back.\<close>

lemma split_newline_not_Nil: "split_newline s \<noteq> []"
  by (induction s) (auto split: list.splits)

lemma split_newline_lines: "l \<in> set (split_newline s) \<Longrightarrow> CHR 0x0A \<notin> set l"
proof (induction s arbitrary: l)
  case Nil
  then show ?case by simp
next
  case (Cons c cs)
  obtain l0 ls where ls: "split_newline cs = l0 # ls"
    using split_newline_not_Nil[of cs] by (cases "split_newline cs") auto
  from Cons.IH ls have "CHR 0x0A \<notin> set l0" "\<And>x. x \<in> set ls \<Longrightarrow> CHR 0x0A \<notin> set x"
    by simp_all
  with Cons.prems Cons.IH ls show ?case
    by (auto split: if_splits)
qed

lemma join_split_newline: "join [CHR 0x0A] (split_newline s) = s"
proof (induction s)
  case Nil
  show ?case by simp
next
  case (Cons c cs)
  obtain l0 ls where ls: "split_newline cs = l0 # ls"
    using split_newline_not_Nil[of cs] by (cases "split_newline cs") auto
  with Cons show ?case
    by (cases ls) auto
qed

text \<open>What \<open>trim\<close> returns neither starts nor ends with white space, and is the text itself when that does neither.\<close>

lemma last_dropWhile: "dropWhile P xs \<noteq> [] \<Longrightarrow> last (dropWhile P xs) = last xs"
proof -
  assume ne: "dropWhile P xs \<noteq> []"
  have "last xs = last (takeWhile P xs @ dropWhile P xs)" by simp
  also have "\<dots> = last (dropWhile P xs)" using ne by (rule last_appendR)
  finally show ?thesis by simp
qed

lemma trim_no_leading: "trim s \<noteq> [] \<Longrightarrow> \<not> isWhiteSpace (hd (trim s))"
proof -
  let ?d = "dropWhile isWhiteSpace s"
  assume "trim s \<noteq> []"
  then have ne: "dropWhile isWhiteSpace (rev ?d) \<noteq> []" by (simp add: trim_def)
  have d: "?d \<noteq> []"
  proof
    assume e: "?d = []"
    have "dropWhile isWhiteSpace (rev ?d) = []" unfolding e by simp
    with ne show False by blast
  qed
  then have h: "\<not> isWhiteSpace (hd ?d)" by (rule hd_dropWhile)
  have "hd (trim s) = last (dropWhile isWhiteSpace (rev ?d))"
    using ne by (simp add: trim_def hd_rev)
  also have "\<dots> = last (rev ?d)" using ne by (rule last_dropWhile)
  also have "\<dots> = hd ?d" using d by (simp add: last_rev)
  finally show ?thesis using h by simp
qed

lemma trim_no_trailing: "trim s \<noteq> [] \<Longrightarrow> \<not> isWhiteSpace (last (trim s))"
proof -
  assume "trim s \<noteq> []"
  then have "dropWhile isWhiteSpace (rev (dropWhile isWhiteSpace s)) \<noteq> []"
    by (simp add: trim_def)
  then have "\<not> isWhiteSpace (hd (dropWhile isWhiteSpace (rev (dropWhile isWhiteSpace s))))"
    by (rule hd_dropWhile)
  then show ?thesis
    using \<open>dropWhile isWhiteSpace (rev (dropWhile isWhiteSpace s)) \<noteq> []\<close>
    by (simp add: trim_def last_rev)
qed

lemma trim_id: "s \<noteq> [] \<Longrightarrow> \<not> isWhiteSpace (hd s) \<Longrightarrow> \<not> isWhiteSpace (last s) \<Longrightarrow> trim s = s"
proof -
  assume s: "s \<noteq> []" and h: "\<not> isWhiteSpace (hd s)" and l: "\<not> isWhiteSpace (last s)"
  from s h have "dropWhile isWhiteSpace s = s" by (cases s) auto
  moreover from s l have "dropWhile isWhiteSpace (rev s) = rev s"
    by (cases "rev s") (auto simp: last_rev[symmetric] hd_rev)
  ultimately show ?thesis by (simp add: trim_def)
qed

text \<open>
  C8. The tag is a function of the stack text alone: the trimmed line at index 3 of the
  text split at its line feeds. Where there is no stack text, where the text has no
  line at index 3, and where that line is blank and so holds no frame, the tag is
  \<^verbatim>\<open>unknown\<close>.
\<close>

theorem getStackTag_fixed_frame:
  "getStackTag None = ''unknown''
   \<and> (length (split_newline st) \<le> 3 \<longrightarrow> getStackTag (Some st) = ''unknown'')
   \<and> (3 < length (split_newline st) \<and> trim (split_newline st ! 3) \<noteq> [] \<longrightarrow>
        getStackTag (Some st) = trim (split_newline st ! 3))
   \<and> (3 < length (split_newline st) \<and> trim (split_newline st ! 3) = [] \<longrightarrow>
        getStackTag (Some st) = ''unknown'')"
  by (simp add: getStackTag_def Let_def)

theorem getStackTag_fixed_frame_witness:
  "getStackTag (Some (v8_stack ''poll (app.js:10:5)'')) = ''at poll (app.js:10:5)''
   \<and> split_newline (v8_stack ''poll (app.js:10:5)'') ! 3 = ''    at poll (app.js:10:5)''
   \<and> getStackTag (Some (''f@app.js:1:1'' @ [CHR 0x0A] @ ''g@app.js:2:2'')) = ''unknown''
   \<and> length (split_newline (''f@app.js:1:1'' @ [CHR 0x0A] @ ''g@app.js:2:2'')) = 2
   \<and> getStackTag (Some (''f@app.js:1:1'' @ [CHR 0x0A] @ ''g@app.js:2:2'' @ [CHR 0x0A]
                         @ ''h@app.js:3:3'' @ [CHR 0x0A])) = ''unknown''
   \<and> split_newline (''f@app.js:1:1'' @ [CHR 0x0A] @ ''g@app.js:2:2'' @ [CHR 0x0A]
                         @ ''h@app.js:3:3'' @ [CHR 0x0A]) ! 3 = []"
proof -
  let ?v8 = "v8_stack ''poll (app.js:10:5)''"
  let ?short = "''f@app.js:1:1'' @ [CHR 0x0A] @ ''g@app.js:2:2''"
  let ?blank = "''f@app.js:1:1'' @ [CHR 0x0A] @ ''g@app.js:2:2'' @ [CHR 0x0A] @ ''h@app.js:3:3'' @ [CHR 0x0A]"
  have v8: "length (split_newline ?v8) = 5" "split_newline ?v8 ! 3 = ''    at poll (app.js:10:5)''"
    "trim (split_newline ?v8 ! 3) = ''at poll (app.js:10:5)''"
    by (simp_all add: v8_stack_def trim_def isWhiteSpace_def)
  have short: "length (split_newline ?short) = 2"
    by simp
  have blank: "length (split_newline ?blank) = 4" "split_newline ?blank ! 3 = []"
    "trim (split_newline ?blank ! 3) = []"
    by (simp_all add: trim_def)
  from getStackTag_fixed_frame[of ?v8] v8
  have "getStackTag (Some ?v8) = ''at poll (app.js:10:5)''" by simp
  moreover from getStackTag_fixed_frame[of ?short] short
  have "getStackTag (Some ?short) = ''unknown''" by simp
  moreover from getStackTag_fixed_frame[of ?blank] blank
  have "getStackTag (Some ?blank) = ''unknown''" by simp
  ultimately show ?thesis using v8 short blank by blast
qed

section \<open>The reporting facade reads\<close>

lemma log_registry [simp]:
  "timeouts (log events s) = timeouts s" "intervals (log events s) = intervals s"
  "native_calls (log events s) = native_calls s" "clipboard_writes (log events s) = clipboard_writes s"
  "console (log events s) = console s @ events"
  by (simp_all add: log_def)

lemma report_registry:
  "timeouts (snd (report h e s)) = timeouts s" "intervals (snd (report h e s)) = intervals s"
  "native_calls (snd (report h e s)) = native_calls s"
  by (simp_all add: report_def Let_def split: sum.splits)

lemma copyReportToClipboard_registry:
  "timeouts (snd (copyReportToClipboard h e s)) = timeouts s"
  "intervals (snd (copyReportToClipboard h e s)) = intervals s"
  "native_calls (snd (copyReportToClipboard h e s)) = native_calls s"
  by (simp_all add: copyReportToClipboard_def Let_def split: clipboard_state.splits)

text \<open>
  C9. \<^verbatim>\<open>report()\<close> and \<^verbatim>\<open>copyReportToClipboard()\<close> leave both maps as they
  found them, entry by entry and in the same order, whatever they print or throw, and
  they call no native timer function; \<^verbatim>\<open>getActiveTimeouts()\<close> and
  \<^verbatim>\<open>getActiveIntervals()\<close> return the entries of the maps and change nothing.
\<close>

theorem facade_leaves_registry:
  "timeouts (snd (report h e s)) = timeouts s
   \<and> intervals (snd (report h e s)) = intervals s
   \<and> native_calls (snd (report h e s)) = native_calls s
   \<and> timeouts (snd (copyReportToClipboard h e s)) = timeouts s
   \<and> intervals (snd (copyReportToClipboard h e s)) = intervals s
   \<and> native_calls (snd (copyReportToClipboard h e s)) = native_calls s
   \<and> getActiveTimeouts s = timeouts s
   \<and> getActiveIntervals s = intervals s"
  by (simp add: report_registry copyReportToClipboard_registry getActiveTimeouts_def
        getActiveIntervals_def)

theorem facade_leaves_registry_witness:
  "timeouts (snd (report example_host (example_env (Inr 0) 4000 None)
      (run [SetTimeout ''tick'' (Some (Num 5000)) ([] :: string list)
              (example_env (Inr 1) 1000 (Some (v8_stack ''toString (app.js:10:5)''))),
            SetInterval ''poll'' None [] (example_env (Inr 2) 2000 None)] init)))
     = [(1, \<lparr>createdAt = 1000, delay = Num 5000, stack = ''at toString (app.js:10:5)''\<rparr>)]
   \<and> intervals (snd (copyReportToClipboard example_host (example_env (Inr 0) 4000 None)
      (run [SetTimeout ''tick'' (Some (Num 5000)) ([] :: string list)
              (example_env (Inr 1) 1000 (Some (v8_stack ''toString (app.js:10:5)''))),
            SetInterval ''poll'' None [] (example_env (Inr 2) 2000 None)] init)))
     = [(2, \<lparr>createdAt = 2000, delay = Num 0, stack = ''unknown''\<rparr>)]"
proof -
  let ?s = "run [SetTimeout ''tick'' (Some (Num 5000)) ([] :: string list)
              (example_env (Inr 1) 1000 (Some (v8_stack ''toString (app.js:10:5)''))),
            SetInterval ''poll'' None [] (example_env (Inr 2) 2000 None)] init"
  have s: "timeouts ?s = [(1, \<lparr>createdAt = 1000, delay = Num 5000, stack = ''at toString (app.js:10:5)''\<rparr>)]"
    "intervals ?s = [(2, \<lparr>createdAt = 2000, delay = Num 0, stack = ''unknown''\<rparr>)]"
    by (simp_all add: example_defs)
  from facade_leaves_registry[of example_host "example_env (Inr 0) 4000 None" ?s]
  show ?thesis unfolding s by blast
qed

section \<open>The clipboard snapshot\<close>

lemma copy_rows_nth:
  "i < length entries \<Longrightarrow>
     copy_rows h now entries ! i =
       JObject [(''id'', JNumber (Num (fst (entries ! i)))),
                (''delay'', JNumber (delay (snd (entries ! i)))),
                (''created'', JString (toISOString h (createdAt (snd (entries ! i))))),
                (''ageSeconds'', JString (toFixed1 h (now - createdAt (snd (entries ! i))))),
                (''origin'', JString (stack (snd (entries ! i))))]"
  by (simp add: copy_rows_def split_beta)

text \<open>
  C6. In the object that \<^verbatim>\<open>copyReportToClipboard()\<close> serializes, \<^verbatim>\<open>timeouts\<close>
  and \<^verbatim>\<open>intervals\<close> are arrays with one element for each entry of the map, in its
  order. Each element is an object of the five fields \<^verbatim>\<open>id\<close>, \<^verbatim>\<open>delay\<close>,
  \<^verbatim>\<open>created\<close>, \<^verbatim>\<open>ageSeconds\<close> and \<^verbatim>\<open>origin\<close>: the handle, the recorded
  delay, the text \<^verbatim>\<open>toISOString\<close> gives for the creation time, the text
  \<^verbatim>\<open>toFixed(1)\<close> gives for the seconds since then, and the origin tag. The text
  written to the clipboard is the serialization of that object.
\<close>

theorem clipboard_snapshot_shape:
  "(\<exists>tos ivs.
      field (copy_data h e s) ''timeouts'' = Some (JArray tos)
      \<and> field (copy_data h e s) ''intervals'' = Some (JArray ivs)
      \<and> length tos = length (timeouts s)
      \<and> length ivs = length (intervals s)
      \<and> (\<forall>i < length (timeouts s).
            tos ! i =
              JObject [(''id'', JNumber (Num (fst (timeouts s ! i)))),
                       (''delay'', JNumber (delay (snd (timeouts s ! i)))),
                       (''created'', JString (toISOString h (createdAt (snd (timeouts s ! i))))),
                       (''ageSeconds'',
                        JString (toFixed1 h (Date_now e - createdAt (snd (timeouts s ! i))))),
                       (''origin'', JString (stack (snd (timeouts s ! i))))])
      \<and> (\<forall>i < length (intervals s).
            ivs ! i =
              JObject [(''id'', JNumber (Num (fst (intervals s ! i)))),
                       (''delay'', JNumber (delay (snd (intervals s ! i)))),
                       (''created'', JString (toISOString h (createdAt (snd (intervals s ! i))))),
                       (''ageSeconds'',
                        JString (toFixed1 h (Date_now e - createdAt (snd (intervals s ! i))))),
                       (''origin'', JString (stack (snd (intervals s ! i))))]))
   \<and> (clipboard e = WriteResolves \<longrightarrow>
        clipboard_writes (snd (copyReportToClipboard h e s)) =
          clipboard_writes s @ [JSON_stringify h (copy_data h e s)])"
proof -
  let ?tos = "copy_rows h (Date_now e) (timeouts s)"
  let ?ivs = "copy_rows h (Date_now e) (intervals s)"
  have "field (copy_data h e s) ''timeouts'' = Some (JArray ?tos)"
    "field (copy_data h e s) ''intervals'' = Some (JArray ?ivs)"
    by (simp_all add: copy_data_def field_def Let_def)
  moreover have "length ?tos = length (timeouts s)" "length ?ivs = length (intervals s)"
    by (simp_all add: copy_rows_def)
  moreover have "clipboard e = WriteResolves \<longrightarrow>
      clipboard_writes (snd (copyReportToClipboard h e s)) =
        clipboard_writes s @ [JSON_stringify h (copy_data h e s)]"
    by (simp add: copyReportToClipboard_def Let_def)
  ultimately show ?thesis
    using copy_rows_nth[of _ "timeouts s" h "Date_now e"] copy_rows_nth[of _ "intervals s" h "Date_now e"]
    by blast
qed

lemma singleton_nth: "length xs = 1 \<Longrightarrow> xs = [xs ! 0]"
  by (cases xs) auto

theorem clipboard_snapshot_shape_witness:
  "field (copy_data example_host (example_env (Inr 0) 4000 None)
      (run [SetTimeout ''tick'' (Some (Num 5000)) ([] :: string list)
              (example_env (Inr 1) 1000 (Some (v8_stack ''poll (app.js:10:5)''))),
            SetInterval ''poll'' None [] (example_env (Inr 2) 2500 None)] init)) ''timeouts''
     = Some (JArray [JObject [(''id'', JNumber (Num 1)), (''delay'', JNumber (Num 5000)),
                              (''created'', JString ''iso 1000''), (''ageSeconds'', JString ''3.0''),
                              (''origin'', JString ''at poll (app.js:10:5)'')]])
   \<and> field (copy_data example_host (example_env (Inr 0) 4000 None)
      (run [SetTimeout ''tick'' (Some (Num 5000)) ([] :: string list)
              (example_env (Inr 1) 1000 (Some (v8_stack ''poll (app.js:10:5)''))),
            SetInterval ''poll'' None [] (example_env (Inr 2) 2500 None)] init)) ''intervals''
     = Some (JArray [JObject [(''id'', JNumber (Num 2)), (''delay'', JNumber (Num 0)),
                              (''created'', JString ''iso 2500''), (''ageSeconds'', JString ''1.5''),
                              (''origin'', JString ''unknown'')]])
   \<and> clipboard (example_env (Inr 0) 4000 None) = WriteResolves
   \<and> length (clipboard_writes (snd (copyReportToClipboard example_host (example_env (Inr 0) 4000 None)
      (run [SetTimeout ''tick'' (Some (Num 5000)) ([] :: string list)
              (example_env (Inr 1) 1000 (Some (v8_stack ''poll (app.js:10:5)''))),
            SetInterval ''poll'' None [] (example_env (Inr 2) 2500 None)] init)))) = 1"
proof -
  let ?e = "example_env (Inr 0) 4000 None"
  let ?s = "run [SetTimeout ''tick'' (Some (Num 5000)) ([] :: string list)
              (example_env (Inr 1) 1000 (Some (v8_stack ''poll (app.js:10:5)''))),
            SetInterval ''poll'' None [] (example_env (Inr 2) 2500 None)] init"
  have s: "timeouts ?s = [(1, \<lparr>createdAt = 1000, delay = Num 5000, stack = ''at poll (app.js:10:5)''\<rparr>)]"
    "intervals ?s = [(2, \<lparr>createdAt = 2500, delay = Num 0, stack = ''unknown''\<rparr>)]"
    "clipboard_writes ?s = []"
    by (simp_all add: example_defs)
  have e: "Date_now ?e = 4000" "clipboard ?e = WriteResolves"
    by (simp_all add: example_env_def)
  have h: "toISOString example_host 1000 = ''iso 1000''" "toISOString example_host 2500 = ''iso 2500''"
    "toFixed1 example_host (4000 - 1000) = ''3.0''" "toFixed1 example_host (4000 - 2500) = ''1.5''"
    by (simp_all add: example_host_def show_int_def show_nat.simps)
  from clipboard_snapshot_shape[of example_host ?e ?s] e
  obtain tos ivs where
    f: "field (copy_data example_host ?e ?s) ''timeouts'' = Some (JArray tos)"
       "field (copy_data example_host ?e ?s) ''intervals'' = Some (JArray ivs)"
    and len: "length tos = length (timeouts ?s)" "length ivs = length (intervals ?s)"
    and el: "\<forall>i < length (timeouts ?s).
        tos ! i = JObject [(''id'', JNumber (Num (fst (timeouts ?s ! i)))),
                       (''delay'', JNumber (delay (snd (timeouts ?s ! i)))),
                       (''created'', JString (toISOString example_host (createdAt (snd (timeouts ?s ! i))))),
                       (''ageSeconds'',
                        JString (toFixed1 example_host (4000 - createdAt (snd (timeouts ?s ! i))))),
                       (''origin'', JString (stack (snd (timeouts ?s ! i))))]"
      "\<forall>i < length (intervals ?s).
        ivs ! i = JObject [(''id'', JNumber (Num (fst (intervals ?s ! i)))),
                       (''delay'', JNumber (delay (snd (intervals ?s ! i)))),
                       (''created'', JString (toISOString example_host (createdAt (snd (intervals ?s ! i))))),
                       (''ageSeconds'',
                        JString (toFixed1 example_host (4000 - createdAt (snd (intervals ?s ! i))))),
                       (''origin'', JString (stack (snd (intervals ?s ! i))))]"
    and w: "clipboard_writes (snd (copyReportToClipboard example_host ?e ?s)) =
        clipboard_writes ?s @ [JSON_stringify example_host (copy_data example_host ?e ?s)]"
    by auto
  from len have l1: "length tos = 1" "length ivs = 1" unfolding s by simp_all
  from el(1) have "tos ! 0 = JObject [(''id'', JNumber (Num 1)), (''delay'', JNumber (Num 5000)),
      (''created'', JString ''iso 1000''), (''ageSeconds'', JString ''3.0''),
      (''origin'', JString ''at poll (app.js:10:5)'')]"
    unfolding s using h by simp
  with singleton_nth[OF l1(1)] have tos: "tos = [JObject [(''id'', JNumber (Num 1)),
      (''delay'', JNumber (Num 5000)), (''created'', JString ''iso 1000''),
      (''ageSeconds'', JString ''3.0''), (''origin'', JString ''at poll (app.js:10:5)'')]]"
    by simp
  from el(2) have "ivs ! 0 = JObject [(''id'', JNumber (Num 2)), (''delay'', JNumber (Num 0)),
      (''created'', JString ''iso 2500''), (''ageSeconds'', JString ''1.5''),
      (''origin'', JString ''unknown'')]"
    unfolding s using h by simp
  with singleton_nth[OF l1(2)] have ivs: "ivs = [JObject [(''id'', JNumber (Num 2)),
      (''delay'', JNumber (Num 0)), (''created'', JString ''iso 2500''),
      (''ageSeconds'', JString ''1.5''), (''origin'', JString ''unknown'')]]"
    by simp
  from w have "length (clipboard_writes (snd (copyReportToClipboard example_host ?e ?s))) = 1"
    unfolding s by simp
  with f tos ivs e show ?thesis by blast
qed

section \<open>What the clipboard export throws and reports\<close>

lemma copyReportToClipboard_throws_iff:
  "(\<exists>err. fst (copyReportToClipboard h e s) = Inl err) \<longleftrightarrow> clipboard e = NoClipboard"
  by (simp add: copyReportToClipboard_def Let_def split: clipboard_state.splits)

lemma copyReportToClipboard_resolved:
  "clipboard e = WriteResolves \<Longrightarrow>
     fst (copyReportToClipboard h e s) = Inr ()
     \<and> console (snd (copyReportToClipboard h e s)) =
         console s @ [Info ''Timer report copied to clipboard!'']"
  by (simp add: copyReportToClipboard_def Let_def)

lemma copyReportToClipboard_denied:
  "clipboard e = WriteRejects (DOMException ''NotAllowedError'') \<Longrightarrow>
     fst (copyReportToClipboard h e s) = Inr ()
     \<and> clipboard_writes (snd (copyReportToClipboard h e s)) = clipboard_writes s
     \<and> console (snd (copyReportToClipboard h e s)) =
         console s @ [Warn (''Copy failed: Clipboard access denied. ''
                           @ ''Use the Copy Timer Report button or call this from a user click.'') []]"
  by (simp add: copyReportToClipboard_def Let_def is_NotAllowedError_def)

lemma copyReportToClipboard_rejected:
  "clipboard e = WriteRejects err \<Longrightarrow> err \<noteq> DOMException ''NotAllowedError'' \<Longrightarrow>
     fst (copyReportToClipboard h e s) = Inr ()
     \<and> clipboard_writes (snd (copyReportToClipboard h e s)) = clipboard_writes s
     \<and> console (snd (copyReportToClipboard h e s)) =
         console s @ [Warn ''Failed to copy timer report:'' [err]]"
  by (cases err) (simp_all add: copyReportToClipboard_def Let_def is_NotAllowedError_def)

text \<open>
  C7. On a page whose \<^verbatim>\<open>navigator.clipboard\<close> is \<^verbatim>\<open>undefined\<close>,
  \<^verbatim>\<open>copyReportToClipboard()\<close> throws a \<^verbatim>\<open>TypeError\<close> to its caller and prints
  no warning: the claim fails there. (With a clipboard it returns, and reports a
  rejected write as the claim says: the three lemmas above.)
\<close>

theorem copy_without_clipboard_throws:
  "fst (copyReportToClipboard example_host
          ((example_env (Inr 0) 4000 None)\<lparr>clipboard := NoClipboard\<rparr>)
          (run [SetTimeout ''tick'' (Some (Num 5000)) ([] :: string list)
                  (example_env (Inr 1) 1000 None)] init))
     = Inl (TypeError ''navigator.clipboard is undefined'')
   \<and> console (snd (copyReportToClipboard example_host
          ((example_env (Inr 0) 4000 None)\<lparr>clipboard := NoClipboard\<rparr>)
          (run [SetTimeout ''tick'' (Some (Num 5000)) ([] :: string list)
                  (example_env (Inr 1) 1000 None)] init)))
     = []"
  by (simp add: copyReportToClipboard_def example_defs)

section \<open>Duplicate origins\<close>



lemma map_of_None_key: "map_of m k = None \<longleftrightarrow> k \<notin> set (Map_keys m)"
  by (simp add: Map_keys_def map_of_eq_None_iff)











text \<open>
  As long as every origin is a name no object inherits, the loop ends and has counted
  every origin; the first origin that is an inherited name makes it throw.
\<close>

lemma count_origin_inherited:
  assumes "stack (snd entry) \<in> set Object_prototype_names"
    and "set (Map_keys originMap) \<inter> set Object_prototype_names = {}"
  shows "count_origin originMap entry = Inl (TypeError ''originMap[origin].ids is undefined'')"
proof -
  from assms have "stack (snd entry) \<notin> set (Map_keys originMap)" by blast
  then have "map_of originMap (stack (snd entry)) = None" by (simp add: map_of_None_key)
  with assms(1) have "get_property originMap (stack (snd entry)) = Inherited"
    by (simp add: get_property_def)
  then show ?thesis by (simp add: count_origin_def Let_def)
qed

lemma Map_keys_append: "Map_keys (m @ m') = Map_keys m @ Map_keys m'"
  by (simp add: Map_keys_def)

lemma map_of_Some_key: "map_of m k = Some v \<Longrightarrow> k \<in> set (Map_keys m)"
  by (auto simp: Map_keys_def dest: map_of_SomeD intro: rev_image_eqI)

lemma count_origin_keys:
  assumes "count_origin originMap entry = Inr originMap'"
  shows "set (Map_keys originMap') = insert (stack (snd entry)) (set (Map_keys originMap))"
  using assms
  by (auto simp: count_origin_def Let_def get_property_def Map_keys_set Map_keys_append
        split: option.splits if_splits property.splits dest: map_of_Some_key)

lemma forEach_inherited:
  "\<exists>entry \<in> set entries. stack (snd entry) \<in> set Object_prototype_names
   \<Longrightarrow> set (Map_keys originMap) \<inter> set Object_prototype_names = {}
   \<Longrightarrow> forEach_count_origin entries originMap = Inl (TypeError ''originMap[origin].ids is undefined'')"
proof (induction entries arbitrary: originMap)
  case Nil
  then show ?case by simp
next
  case (Cons entry entries)
  show ?case
  proof (cases "stack (snd entry) \<in> set Object_prototype_names")
    case True
    with Cons.prems(2) show ?thesis by (simp add: count_origin_inherited)
  next
    case False
    with Cons.prems(1) have rest: "\<exists>entry \<in> set entries. stack (snd entry) \<in> set Object_prototype_names"
      by auto
    show ?thesis
    proof (cases "count_origin originMap entry")
      case (Inl err)
      with False show ?thesis
        by (auto simp: count_origin_def Let_def get_property_def
              split: option.splits if_splits property.splits)
    next
      case (Inr originMap')
      from count_origin_keys[OF Inr] False Cons.prems(2)
      have "set (Map_keys originMap') \<inter> set Object_prototype_names = {}" by auto
      from Cons.IH[OF rest this] Inr show ?thesis by simp
    qed
  qed
qed

lemma report_throws_on_inherited_origin:
  assumes "\<exists>entry \<in> set (timeouts s @ intervals s). stack (snd entry) \<in> set Object_prototype_names"
  shows "fst (report h e s) = Inl (TypeError ''originMap[origin].ids is undefined'')"
proof -
  from assms have "timeouts s @ intervals s \<noteq> []" by auto
  then have ne: "\<not> (length (timeouts s) = 0 \<and> length (intervals s) = 0)" by simp
  have "forEach_count_origin (timeouts s @ intervals s) [] =
      Inl (TypeError ''originMap[origin].ids is undefined'')"
    using assms by (intro forEach_inherited) simp_all
  with ne show ?thesis by (simp add: report_def Let_def)
qed


text \<open>
  The origin tags the engines produce are no inherited names: a frame line of V8
  (\<^verbatim>\<open>at f (url:1:2)\<close>), of SpiderMonkey and of JavaScriptCore (\<^verbatim>\<open>f@url:1:2\<close>) holds
  a blank, an \<^verbatim>\<open>@\<close> or a colon, and the fallback is \<^verbatim>\<open>unknown\<close>.
\<close>

lemma engine_tag_not_inherited:
  "tag = ''unknown'' \<or> CHR '' '' \<in> set tag \<or> CHR ''@'' \<in> set tag \<or> CHR '':'' \<in> set tag
   \<Longrightarrow> tag \<notin> set Object_prototype_names"
  by (auto simp: Object_prototype_names_def)



end
